theory Spec2Isabelle
  imports Main "HOL-Library.Sublist" "HOL-Library.AList"
begin

section \<open>Supervisor script \<^verbatim>\<open>scripts/batch.py\<close>: data model\<close>

text \<open>
  The script supervises two child processes. Everything it does beyond computing
  values is a call into its environment (\<^verbatim>\<open>subprocess\<close>, \<^verbatim>\<open>threading\<close>,
  \<^verbatim>\<open>asyncio\<close>, \<^verbatim>\<open>input\<close>, the persona collaborator, \<^verbatim>\<open>random\<close>) or a line handed to
  the logger. The embedding passes the supervisor's state explicitly and makes every
  environment call a function of an abstract world \<open>'w\<close>: the call returns an outcome
  and the next world. Nothing is assumed about these functions, so a theorem that
  quantifies over the environment covers every behaviour of the operating system.
\<close>

subsection \<open>Exceptions\<close>

text \<open>
  The handlers of the source distinguish four classes: \<^verbatim>\<open>ValueError\<close> (caught by
  \<^verbatim>\<open>get_user_input\<close>), any other subclass of \<^verbatim>\<open>Exception\<close>, and the two
  \<^verbatim>\<open>BaseException\<close>s \<^verbatim>\<open>asyncio.CancelledError\<close> and \<^verbatim>\<open>KeyboardInterrupt\<close>,
  which \<^verbatim>\<open>except Exception\<close> does not catch. The string is \<^verbatim>\<open>str(e)\<close>.
\<close>

datatype exn =
    ValueError string
  | OtherException string
  | CancelledError
  | KeyboardInterrupt

fun is_Exception :: "exn \<Rightarrow> bool" where
  "is_Exception (ValueError m) = True"
| "is_Exception (OtherException m) = True"
| "is_Exception CancelledError = False"
| "is_Exception KeyboardInterrupt = False"

fun str_exn :: "exn \<Rightarrow> string" where
  "str_exn (ValueError m) = m"
| "str_exn (OtherException m) = m"
| "str_exn CancelledError = []"
| "str_exn KeyboardInterrupt = []"

subsection \<open>Python strings\<close>

text \<open>
  Strings are lists of 8-bit characters, read as the code points below 256.
  \<^verbatim>\<open>str.strip()\<close> removes the characters for which \<^verbatim>\<open>str.isspace\<close> holds from both
  ends; below 256 these are the code points listed in \<open>isspace\<close>.
\<close>

definition isspace :: "char \<Rightarrow> bool" where
  "isspace c = (of_char c \<in> {9, 10, 11, 12, 13, 28, 29, 30, 31, 32, 133, 160 :: nat})"

definition lstrip :: "string \<Rightarrow> string" where
  "lstrip s = dropWhile isspace s"

definition rstrip :: "string \<Rightarrow> string" where
  "rstrip s = rev (dropWhile isspace (rev s))"

definition strip :: "string \<Rightarrow> string" where
  "strip s = rstrip (lstrip s)"

text \<open>\<^verbatim>\<open>needle in line\<close> on strings is containment as a contiguous block.\<close>

definition contains :: "string \<Rightarrow> string \<Rightarrow> bool" where
  "contains line needle = sublist needle line"

text \<open>\<^verbatim>\<open>str(n)\<close> for an integer: decimal digits, with a minus sign below zero.\<close>

definition digit_char :: "nat \<Rightarrow> char" where
  "digit_char d = ''0123456789'' ! d"

fun str_nat :: "nat \<Rightarrow> string" where
  "str_nat n = (if n < 10 then [digit_char n] else str_nat (n div 10) @ [digit_char (n mod 10)])"

declare str_nat.simps [simp del]

definition str_int :: "int \<Rightarrow> string" where
  "str_int i = (if i < 0 then CHR ''-'' # str_nat (nat (- i)) else str_nat (nat i))"

subsection \<open>The logger\<close>

datatype severity = Info | Warning | Success | Error

subsection \<open>Events, registry and state\<close>

text \<open>
  A \<open>handle\<close> identifies a \<^verbatim>\<open>subprocess.Popen\<close> object. The supervisor's observable
  behaviour is the chronological list of its log lines and of the calls it makes on
  the environment, each call recorded with its outcome.
\<close>

type_synonym handle = nat

datatype stream = Stdout | Stderr

datatype event =
    Log severity string
  | Popen "string list" "exn + handle"
  | ThreadStart handle stream string "exn option"
  | Terminate handle "exn option"
  | Sleep "exn option"
  | Poll handle "exn + int option"
  | Kill handle "exn option"
  | Iteration

text \<open>
  An entry of \<^verbatim>\<open>self.processes\<close> is the dict
  \<^verbatim>\<open>{"process": process, "command": command}\<close>. A Python dict keeps insertion order
  and assigning to a key that is present replaces the value in place, which is
  \<open>AList.update\<close> on an association list.
\<close>

record proc_info =
  process :: handle
  command :: "string list"

record 'w state =
  processes :: "(string \<times> proc_info) list"
  shutdown_event :: bool
  selected_persona_name :: "string option"
  events :: "event list"
  world :: 'w

text \<open>
  \<^verbatim>\<open>BotManager.__init__\<close>: an empty registry, a cleared event and no persona
  (\<^verbatim>\<open>start_time\<close> is never read and is left out).
\<close>

definition BotManager_init :: "'w \<Rightarrow> 'w state" where
  "BotManager_init w =
     \<lparr>processes = [], shutdown_event = False, selected_persona_name = None,
      events = [], world = w\<rparr>"

definition logger :: "severity \<Rightarrow> string \<Rightarrow> 'w state \<Rightarrow> 'w state" where
  "logger sev msg st = st\<lparr>events := events st @ [Log sev msg]\<rparr>"

subsection \<open>The environment\<close>

text \<open>
  One field per library call the script makes. \<open>randbelow n\<close> is the draw inside
  \<^verbatim>\<open>random.choice\<close>; \<open>format_exception\<close> is the text of
  \<^verbatim>\<open>traceback.format_exception\<close>; \<open>win32\<close> is \<^verbatim>\<open>sys.platform == "win32"\<close>.
  \<open>list_personas\<close> and \<open>get_persona\<close> are the persona collaborator
  (\<^verbatim>\<open>config.persona_utils.PersonaManager\<close>), whose code is not part of the script.
\<close>

record 'w os =
  popen :: "string list \<Rightarrow> 'w \<Rightarrow> (exn + handle) \<times> 'w"
  thread_start :: "handle \<Rightarrow> stream \<Rightarrow> string \<Rightarrow> 'w \<Rightarrow> exn option \<times> 'w"
  terminate :: "handle \<Rightarrow> 'w \<Rightarrow> exn option \<times> 'w"
  sleep :: "'w \<Rightarrow> exn option \<times> 'w"
  poll :: "handle \<Rightarrow> 'w \<Rightarrow> (exn + int option) \<times> 'w"
  kill :: "handle \<Rightarrow> 'w \<Rightarrow> exn option \<times> 'w"
  input :: "string \<Rightarrow> 'w \<Rightarrow> (exn + string) \<times> 'w"
  list_personas :: "'w \<Rightarrow> (exn + string list) \<times> 'w"
  get_persona :: "string \<Rightarrow> 'w \<Rightarrow> (exn + (string \<rightharpoonup> string)) \<times> 'w"
  randbelow :: "nat \<Rightarrow> 'w \<Rightarrow> nat \<times> 'w"
  format_exception :: "exn \<Rightarrow> string"
  win32 :: bool

text \<open>A call on the environment: take the outcome, move the world, record the event.\<close>

definition env_call :: "('w \<Rightarrow> 'r \<times> 'w) \<Rightarrow> ('r \<Rightarrow> event) \<Rightarrow> 'w state \<Rightarrow> 'r \<times> 'w state" where
  "env_call f ev st =
     (case f (world st) of (r, w) \<Rightarrow> (r, st\<lparr>world := w, events := events st @ [ev r]\<rparr>))"

text \<open>A call that is not recorded (input, personas, random draw).\<close>

definition env_read :: "('w \<Rightarrow> 'r \<times> 'w) \<Rightarrow> 'w state \<Rightarrow> 'r \<times> 'w state" where
  "env_read f st = (case f (world st) of (r, w) \<Rightarrow> (r, st\<lparr>world := w\<rparr>))"

section \<open>OutputRelay: \<^verbatim>\<open>log_output\<close>\<close>

text \<open>
  Lines 61-72. The body of the loop, for one line of the stream: the events it
  appends to the log (none or one). The parameter \<^verbatim>\<open>prefix\<close> of the source is
  \<open>label\<close> here.
\<close>

definition log_line :: "string \<Rightarrow> string \<Rightarrow> event list" where
  "log_line label raw =
     (let line = strip raw in
      if line \<noteq> [] then
        (if contains line ''ERROR'' then [Log Error (label @ '': '' @ line)]
         else if contains line ''WARNING'' then [Log Warning (label @ '': '' @ line)]
         else if contains line ''SUCCESS'' then [Log Success (label @ '': '' @ line)]
         else [Log Info (label @ '': '' @ line)])
      else [])"

fun log_output :: "string list \<Rightarrow> string \<Rightarrow> event list" where
  "log_output [] label = []"
| "log_output (raw # stream) label = log_line label raw @ log_output stream label"

section \<open>ProcessSupervisor: \<^verbatim>\<open>run_command\<close>, \<^verbatim>\<open>cleanup\<close>, \<^verbatim>\<open>monitor_processes\<close>\<close>

subsection \<open>\<^verbatim>\<open>run_command\<close> (lines 49-88)\<close>

text \<open>
  The handler of lines 83-88: an \<^verbatim>\<open>Exception\<close> is logged twice (the message, then
  the traceback) and the function returns \<^verbatim>\<open>None\<close>; anything else propagates.
\<close>

definition start_failed ::
  "'w os \<Rightarrow> string \<Rightarrow> exn \<Rightarrow> 'w state \<Rightarrow> (exn + handle option) \<times> 'w state" where
  "start_failed os name e st =
     (if is_Exception e then
        (Inr None,
         logger Error (format_exception os e)
           (logger Error (''Failed to start '' @ name @ '': '' @ str_exn e) st))
      else (Inl e, st))"

text \<open>
  The \<^verbatim>\<open>try\<close> body: \<^verbatim>\<open>Popen\<close>, the two relay threads, then the assignment of line 81.
  The result is \<open>Inr (Some p)\<close> for the returned process, \<open>Inr None\<close> for \<^verbatim>\<open>None\<close>.
\<close>

definition run_command ::
  "'w os \<Rightarrow> string list \<Rightarrow> string \<Rightarrow> 'w state \<Rightarrow> (exn + handle option) \<times> 'w state" where
  "run_command os cmd name st =
     (case env_call (popen os cmd) (Popen cmd) st of
        (Inl e, st1) \<Rightarrow> start_failed os name e st1
      | (Inr p, st1) \<Rightarrow>
          (case env_call (thread_start os p Stdout name) (ThreadStart p Stdout name) st1 of
             (Some e, st2) \<Rightarrow> start_failed os name e st2
           | (None, st2) \<Rightarrow>
               (case env_call (thread_start os p Stderr name) (ThreadStart p Stderr name) st2 of
                  (Some e, st3) \<Rightarrow> start_failed os name e st3
                | (None, st3) \<Rightarrow>
                    (Inr (Some p),
                     st3\<lparr>processes :=
                           AList.update name \<lparr>process = p, command = cmd\<rparr> (processes st3)\<rparr>))))"

subsection \<open>\<^verbatim>\<open>cleanup\<close> (lines 90-107)\<close>

text \<open>The handler of lines 102-103.\<close>

definition terminate_failed :: "string \<Rightarrow> exn \<Rightarrow> 'w state \<Rightarrow> exn option \<times> 'w state" where
  "terminate_failed name e st =
     (if is_Exception e then
        (None, logger Error (''Error terminating process '' @ name @ '': '' @ str_exn e) st)
      else (Some e, st))"

text \<open>
  The inner \<^verbatim>\<open>try\<close> of lines 96-103 for one process. \<^verbatim>\<open>await asyncio.sleep(1)\<close> is
  the call \<open>sleep\<close>; it raises when the task is cancelled during the wait.
\<close>

definition terminate_process ::
  "'w os \<Rightarrow> string \<Rightarrow> handle \<Rightarrow> 'w state \<Rightarrow> exn option \<times> 'w state" where
  "terminate_process os name p st =
     (case env_call (terminate os p) (Terminate p) st of
        (Some e, st1) \<Rightarrow> terminate_failed name e st1
      | (None, st1) \<Rightarrow>
          (case env_call (sleep os) Sleep st1 of
             (Some e, st2) \<Rightarrow> terminate_failed name e st2
           | (None, st2) \<Rightarrow>
               (case env_call (poll os p) (Poll p) st2 of
                  (Inl e, st3) \<Rightarrow> terminate_failed name e st3
                | (Inr (Some rc), st3) \<Rightarrow>
                    (None, logger Success (''Process '' @ name @ '' terminated successfully'') st3)
                | (Inr None, st3) \<Rightarrow>
                    (case env_call (kill os p) (Kill p) st3 of
                       (Some e, st4) \<Rightarrow> terminate_failed name e st4
                     | (None, st4) \<Rightarrow>
                         (None,
                          logger Success (''Process '' @ name @ '' terminated successfully'') st4)))))"

text \<open>The \<^verbatim>\<open>for\<close> loop of lines 93-103 over the items of the registry.\<close>

fun cleanup_loop ::
  "'w os \<Rightarrow> (string \<times> proc_info) list \<Rightarrow> 'w state \<Rightarrow> exn option \<times> 'w state" where
  "cleanup_loop os [] st = (None, st)"
| "cleanup_loop os ((name, process_info) # rest) st =
     (case terminate_process os name (process process_info)
             (logger Info (''Terminating process: '' @ name) st) of
        (Some e, st1) \<Rightarrow> (Some e, st1)
      | (None, st1) \<Rightarrow> cleanup_loop os rest st1)"

definition cleanup :: "'w os \<Rightarrow> 'w state \<Rightarrow> exn option \<times> 'w state" where
  "cleanup os st =
     (case cleanup_loop os (processes st) st of
        (None, st1) \<Rightarrow> (None, logger Success ''Cleanup completed successfully'' st1)
      | (Some e, st1) \<Rightarrow>
          (if is_Exception e then
             (None, logger Error (''Error during cleanup: '' @ str_exn e) st1)
           else (Some e, st1)))"

subsection \<open>\<^verbatim>\<open>monitor_processes\<close> (lines 109-124)\<close>

text \<open>
  The \<^verbatim>\<open>for\<close> loop of lines 113-118. After \<^verbatim>\<open>poll()\<close> has returned a code,
  \<^verbatim>\<open>process.returncode\<close> is that code.
\<close>

fun sweep ::
  "'w os \<Rightarrow> (string \<times> proc_info) list \<Rightarrow> 'w state \<Rightarrow> exn option \<times> 'w state" where
  "sweep os [] st = (None, st)"
| "sweep os ((name, process_info) # rest) st =
     (case env_call (poll os (process process_info)) (Poll (process process_info)) st of
        (Inl e, st1) \<Rightarrow> (Some e, st1)
      | (Inr None, st1) \<Rightarrow> sweep os rest st1
      | (Inr (Some rc), st1) \<Rightarrow>
          sweep os rest
            (logger Warning (''Process '' @ name @ '' exited with code: '' @ str_int rc) st1))"

text \<open>
  The coroutine is suspended at its two \<^verbatim>\<open>await\<close>s. Between them it runs without
  interruption, so its control state is one of: created and not yet run, suspended at
  line 119, suspended at line 124, finished (with the exception that left it, if any).
\<close>

datatype mon_pc = MonReady | MonSleep | MonSleepErr | MonDone "exn option"

text \<open>
  The handlers of the \<^verbatim>\<open>try\<close> (lines 120-124) up to the \<^verbatim>\<open>await\<close> of line 124:
  \<^verbatim>\<open>CancelledError\<close> breaks out of the loop, an \<^verbatim>\<open>Exception\<close> is logged, anything
  else leaves the coroutine.
\<close>

definition monitor_except :: "exn \<Rightarrow> 'w state \<Rightarrow> mon_pc \<times> 'w state" where
  "monitor_except e st =
     (if e = CancelledError then (MonDone None, st)
      else if is_Exception e then
        (MonSleepErr, logger Error (''Error monitoring processes: '' @ str_exn e) st)
      else (MonDone (Some e), st))"

text \<open>
  From the loop test of line 111 to the next \<^verbatim>\<open>await\<close>. Entering the loop body
  is recorded as the event \<open>Iteration\<close>.
\<close>

definition monitor_head :: "'w os \<Rightarrow> 'w state \<Rightarrow> mon_pc \<times> 'w state" where
  "monitor_head os st =
     (if shutdown_event st then (MonDone None, st)
      else
        (case sweep os (processes st) (st\<lparr>events := events st @ [Iteration]\<rparr>) of
           (Some e, st1) \<Rightarrow> monitor_except e st1
         | (None, st1) \<Rightarrow> (MonSleep, st1)))"

text \<open>
  One run of the coroutine, from where it is suspended to its next suspension: the
  pending \<^verbatim>\<open>asyncio.sleep(1)\<close> completes or raises, and control goes on from there.
  The sleep of line 119 is inside the \<^verbatim>\<open>try\<close>; the one of line 124 is not.
\<close>

definition monitor_resume :: "'w os \<Rightarrow> mon_pc \<Rightarrow> 'w state \<Rightarrow> mon_pc \<times> 'w state" where
  "monitor_resume os pc st =
     (case pc of
        MonReady \<Rightarrow> monitor_head os st
      | MonSleep \<Rightarrow>
          (case env_call (sleep os) Sleep st of
             (Some e, st1) \<Rightarrow> monitor_except e st1
           | (None, st1) \<Rightarrow> monitor_head os st1)
      | MonSleepErr \<Rightarrow>
          (case env_call (sleep os) Sleep st of
             (Some e, st1) \<Rightarrow> (MonDone (Some e), st1)
           | (None, st1) \<Rightarrow> monitor_head os st1)
      | MonDone r \<Rightarrow> (MonDone r, st))"

section \<open>ShutdownCoordinator and the running phase\<close>

text \<open>Lines 247-248: the handler of \<^verbatim>\<open>SIGINT\<close> and \<^verbatim>\<open>SIGTERM\<close>.\<close>

definition signal_handler :: "'w state \<Rightarrow> 'w state" where
  "signal_handler st = st\<lparr>shutdown_event := True\<rparr>"

text \<open>
  Lines 219-227. After \<^verbatim>\<open>create_task\<close> the main coroutine is suspended at
  \<^verbatim>\<open>await self.shutdown_event.wait()\<close> (line 222), then, after the \<^verbatim>\<open>finally\<close> has
  set the event, at \<^verbatim>\<open>await monitor_task\<close> (line 227), which returns or raises what
  the monitor coroutine did. \<open>main_resume\<close> is one run of the main coroutine by the
  event loop; the loop runs it only while it is itself running (see \<open>run_step\<close>).
\<close>

datatype main_pc = MainWait | MainJoin | MainLeft "exn option"

definition main_resume :: "main_pc \<Rightarrow> mon_pc \<Rightarrow> 'w state \<Rightarrow> main_pc \<times> 'w state" where
  "main_resume pc mon st =
     (case pc of
        MainWait \<Rightarrow>
          (if shutdown_event st then (MainJoin, st\<lparr>shutdown_event := True\<rparr>)
           else (MainWait, st))
      | MainJoin \<Rightarrow> (case mon of MonDone r \<Rightarrow> (MainLeft r, st) | _ \<Rightarrow> (MainJoin, st))
      | MainLeft r \<Rightarrow> (MainLeft r, st))"

text \<open>Lines 223-226: the wait of line 222 raises \<^verbatim>\<open>CancelledError\<close>.\<close>

definition main_cancelled :: "main_pc \<Rightarrow> 'w state \<Rightarrow> main_pc \<times> 'w state" where
  "main_cancelled pc st =
     (case pc of
        MainWait \<Rightarrow>
          (MainJoin,
           (logger Info (CHR 0x0A # ''Received shutdown signal'') st)\<lparr>shutdown_event := True\<rparr>)
      | _ \<Rightarrow> (pc, st))"

text \<open>
  An exception that leaves a coroutine reaches the step of its task. asyncio keeps an
  \<^verbatim>\<open>Exception\<close> and a \<^verbatim>\<open>CancelledError\<close> in the task, for whoever awaits it. A
  \<^verbatim>\<open>KeyboardInterrupt\<close> (or \<^verbatim>\<open>SystemExit\<close>) is kept in the task and also raised again
  out of the task's step and so out of the event loop: \<^verbatim>\<open>run_until_complete\<close> raises it
  at once, and no coroutine is run any more by that call.
\<close>

definition stops_loop :: "exn \<Rightarrow> bool" where
  "stops_loop e = (e = KeyboardInterrupt)"

text \<open>
  asyncio runs one coroutine or callback at a time and switches only at an
  \<^verbatim>\<open>await\<close>, so an execution of the running phase is a sequence of atomic steps.
  A schedule lists which one runs next: the signal handler (registered only when the
  platform is not win32, lines 240-251), the monitor coroutine, the main coroutine, or
  the cancellation of the main coroutine's wait. A step that is not enabled leaves the
  configuration as it is. A cancellation that reaches the main coroutine while it
  awaits the monitor is passed on to the monitor by asyncio and shows there as a sleep
  that raises \<^verbatim>\<open>CancelledError\<close>.

  The handler can also run while the main coroutine sleeps outside the running phase
  (line 194 and line 98). All it does is set the event, which is read only at the head
  of the monitor loop and at the wait of line 222, so a handler that ran before the
  running phase is the schedule that begins with \<open>RunSignal\<close>.
\<close>

datatype turn = RunSignal | RunMonitor | RunMain | CancelMain

record 'w config =
  main_task :: main_pc
  monitor_task :: mon_pc
  cstate :: "'w state"

text \<open>
  The exception with which the event loop has stopped, if it has: the monitor task was
  left by an exception that its step raises again. (One that leaves the main coroutine
  ends \<^verbatim>\<open>async_main\<close> and is raised by \<^verbatim>\<open>run_until_complete\<close> in any case.)
\<close>

definition loop_stopped :: "'w config \<Rightarrow> exn option" where
  "loop_stopped c =
     (case monitor_task c of
        MonDone (Some e) \<Rightarrow> (if stops_loop e then Some e else None)
      | _ \<Rightarrow> None)"

text \<open>One step of the event loop. Once the loop has stopped no step is enabled.\<close>

definition run_step :: "'w os \<Rightarrow> turn \<Rightarrow> 'w config \<Rightarrow> 'w config" where
  "run_step os ch c =
     (if loop_stopped c \<noteq> None then c
      else
        (case ch of
           RunSignal \<Rightarrow> (if win32 os then c else c\<lparr>cstate := signal_handler (cstate c)\<rparr>)
         | RunMonitor \<Rightarrow>
             (case monitor_resume os (monitor_task c) (cstate c) of
                (pc, st) \<Rightarrow> c\<lparr>monitor_task := pc, cstate := st\<rparr>)
         | RunMain \<Rightarrow>
             (case main_resume (main_task c) (monitor_task c) (cstate c) of
                (pc, st) \<Rightarrow> c\<lparr>main_task := pc, cstate := st\<rparr>)
         | CancelMain \<Rightarrow>
             (case main_cancelled (main_task c) (cstate c) of
                (pc, st) \<Rightarrow> c\<lparr>main_task := pc, cstate := st\<rparr>)))"

fun running :: "'w os \<Rightarrow> turn list \<Rightarrow> 'w config \<Rightarrow> 'w config" where
  "running os [] c = c"
| "running os (ch # sched) c = running os sched (run_step os ch c)"

section \<open>SessionDriver: \<^verbatim>\<open>validate_url\<close>, \<^verbatim>\<open>get_user_input\<close>, \<^verbatim>\<open>async_main\<close>, \<^verbatim>\<open>main\<close>\<close>

text \<open>Lines 23-27.\<close>

definition validate_url :: "string \<Rightarrow> exn + string" where
  "validate_url url =
     (if \<not> prefix ''https://'' url then Inl (ValueError ''URL must start with https://'')
      else Inr url)"

text \<open>
  Lines 30-39. The loop ends only when a line is accepted or \<^verbatim>\<open>input\<close> raises, so
  the function is partial: \<open>None\<close> is the run that prompts for ever.
\<close>

partial_function (option) get_user_input ::
  "'w os \<Rightarrow> string \<Rightarrow> (string \<Rightarrow> exn + string) option \<Rightarrow> 'w state
     \<Rightarrow> ((exn + string) \<times> 'w state) option" where
  "get_user_input os prompt validator st =
     (case env_read (input os prompt) st of
        (Inl e, st1) \<Rightarrow> Some (Inl e, st1)
      | (Inr typed, st1) \<Rightarrow>
          (case validator of
             None \<Rightarrow> Some (Inr (strip typed), st1)
           | Some v \<Rightarrow>
               (case v (strip typed) of
                  Inr x \<Rightarrow> Some (Inr x, st1)
                | Inl (ValueError m) \<Rightarrow>
                    get_user_input os prompt validator
                      (logger Warning (''Invalid input received: '' @ m) st1)
                | Inl e \<Rightarrow> Some (Inl e, st1))))"

declare get_user_input.simps [code]

text \<open>The parsed command line (lines 127-143).\<close>

record args =
  persona :: "string option"
  port :: int
  meeting_url :: "string option"

text \<open>
  Lines 145-149. \<^verbatim>\<open>not meeting_url\<close> holds for \<^verbatim>\<open>None\<close> and for the empty string.
\<close>

definition resolve_meeting_url ::
  "'w os \<Rightarrow> args \<Rightarrow> 'w state \<Rightarrow> ((exn + string) \<times> 'w state) option" where
  "resolve_meeting_url os a st =
     (case meeting_url a of
        None \<Rightarrow>
          get_user_input os ''Enter the meeting URL (must start with https://): ''
            (Some validate_url) st
      | Some u \<Rightarrow>
          (if u = [] then
             get_user_input os ''Enter the meeting URL (must start with https://): ''
               (Some validate_url) st
           else Some (Inr u, st)))"

text \<open>
  \<^verbatim>\<open>random.choice(seq)\<close>: \<^verbatim>\<open>IndexError\<close> on an empty sequence, else the element at the
  index drawn below \<^verbatim>\<open>len(seq)\<close> (the \<open>mod\<close> keeps a draw of the environment inside
  the range that \<^verbatim>\<open>_randbelow\<close> guarantees).
\<close>

definition random_choice :: "'w os \<Rightarrow> string list \<Rightarrow> 'w state \<Rightarrow> (exn + string) \<times> 'w state" where
  "random_choice os seq st =
     (if seq = [] then (Inl (OtherException ''Cannot choose from an empty sequence''), st)
      else (case env_read (randbelow os (length seq)) st of
              (i, st1) \<Rightarrow> (Inr (seq ! (i mod length seq)), st1)))"

text \<open>Lines 157-162. \<^verbatim>\<open>if args.persona\<close> fails for \<^verbatim>\<open>None\<close> and for the empty string.\<close>

definition select_persona ::
  "'w os \<Rightarrow> args \<Rightarrow> string list \<Rightarrow> 'w state \<Rightarrow> (exn + string) \<times> 'w state" where
  "select_persona os a available_personas st =
     (case persona a of
        None \<Rightarrow> random_choice os available_personas st
      | Some p \<Rightarrow>
          (if p = [] then random_choice os available_personas st
           else if p \<notin> set available_personas then
             (Inl (ValueError (''Persona '' @ [CHR 0x27] @ p @ [CHR 0x27]
                                @ '' not found in available personas'')), st)
           else (Inr p, st)))"

text \<open>
  Lines 152-168: the persona and its prompt. A persona without the key
  \<^verbatim>\<open>"prompt"\<close> raises \<^verbatim>\<open>KeyError\<close>.
\<close>

definition resolve_persona ::
  "'w os \<Rightarrow> args \<Rightarrow> 'w state \<Rightarrow> (exn + string \<times> string) \<times> 'w state" where
  "resolve_persona os a st =
     (case env_read (list_personas os)
             (logger Info ''Starting bot with random persona selection...'' st) of
        (Inl e, st1) \<Rightarrow> (Inl e, st1)
      | (Inr available_personas, st1) \<Rightarrow>
          (case select_persona os a available_personas st1 of
             (Inl e, st2) \<Rightarrow> (Inl e, st2)
           | (Inr name, st2) \<Rightarrow>
               (case env_read (get_persona os name) (st2\<lparr>selected_persona_name := Some name\<rparr>) of
                  (Inl e, st3) \<Rightarrow> (Inl e, st3)
                | (Inr persona_dict, st3) \<Rightarrow>
                    (case persona_dict ''prompt'' of
                       None \<Rightarrow> (Inl (OtherException ([CHR 0x27] @ ''prompt'' @ [CHR 0x27])), st3)
                     | Some bot_prompt \<Rightarrow>
                         (Inr (name, bot_prompt),
                          logger Warning (''System prompt: '' @ bot_prompt)
                            (logger Warning (''Selected persona: '' @ name) st3))))))"

text \<open>The two command lines (lines 174-186 and 199-207).\<close>

definition bot_command :: "int \<Rightarrow> string \<Rightarrow> string \<Rightarrow> string list" where
  "bot_command bot_port bot_prompt persona_name =
     [''poetry'', ''run'', ''bot'', ''-p'', str_int bot_port, ''--system-prompt'', bot_prompt,
      ''--persona-name'', persona_name, ''--voice-id'', ''40104aff-a015-4da1-9912-af950fbec99e'']"

definition meeting_command :: "string \<Rightarrow> string \<Rightarrow> string list" where
  "meeting_command url persona_name =
     [''poetry'', ''run'', ''meetingbaas'', ''--meeting-url'', url, ''--persona-name'', persona_name]"

text \<open>
  Lines 170-217. Control leaves the \<^verbatim>\<open>try\<close> body by \<^verbatim>\<open>return\<close> (\<open>Leave None\<close>) or
  by an exception, or it reaches line 219 (\<open>Run\<close>).
\<close>

datatype phase = Leave "exn option" | Run

definition start_processes ::
  "'w os \<Rightarrow> args \<Rightarrow> string \<Rightarrow> string \<Rightarrow> string \<Rightarrow> 'w state \<Rightarrow> phase \<times> 'w state" where
  "start_processes os a url name bot_prompt st =
     (case run_command os (bot_command (port a) bot_prompt name) ''bot'' st of
        (Inl e, st1) \<Rightarrow> (Leave (Some e), st1)
      | (Inr None, st1) \<Rightarrow> (Leave None, logger Error ''Failed to start bot'' st1)
      | (Inr (Some bot_process), st1) \<Rightarrow>
          (case env_call (sleep os) Sleep st1 of
             (Some e, st2) \<Rightarrow> (Leave (Some e), st2)
           | (None, st2) \<Rightarrow>
               (case run_command os (meeting_command url name) ''meeting'' st2 of
                  (Inl e, st3) \<Rightarrow> (Leave (Some e), st3)
                | (Inr None, st3) \<Rightarrow> (Leave None, logger Error ''Failed to start meeting'' st3)
                | (Inr (Some meeting_process), st3) \<Rightarrow>
                    (Run,
                     logger Info ''Press Ctrl+C to stop all processes''
                       (logger Success ''Successfully started bot and meeting processes'' st3)))))"

text \<open>
  How a run of the coroutine by the event loop ends: control has left (with the
  exception raised, if any), or the event loop has stopped with an exception while the
  coroutine is still suspended at one of its two \<^verbatim>\<open>await\<close>s of the running phase.
\<close>

datatype ended = Ended "exn option" | Suspended main_pc exn

text \<open>
  The \<^verbatim>\<open>try\<close> body of lines 151-227. The running phase follows the schedule; when
  the schedule ends before the main coroutine has left line 227 and before the event
  loop has stopped, the session has not finished (\<open>None\<close>).
\<close>

definition session ::
  "'w os \<Rightarrow> turn list \<Rightarrow> args \<Rightarrow> string \<Rightarrow> 'w state \<Rightarrow> (ended \<times> 'w state) option" where
  "session os sched a url st =
     (case resolve_persona os a st of
        (Inl e, st1) \<Rightarrow> Some (Ended (Some e), st1)
      | (Inr (name, bot_prompt), st1) \<Rightarrow>
          (case start_processes os a url name bot_prompt st1 of
             (Leave r, st2) \<Rightarrow> Some (Ended r, st2)
           | (Run, st2) \<Rightarrow>
               (let c = running os sched
                          \<lparr>main_task = MainWait, monitor_task = MonReady, cstate = st2\<rparr>
                in case loop_stopped c of
                     Some e \<Rightarrow> Some (Suspended (main_task c) e, cstate c)
                   | None \<Rightarrow>
                       (case main_task c of
                          MainLeft r \<Rightarrow> Some (Ended r, cstate c)
                        | _ \<Rightarrow> None))))"

text \<open>
  The handlers of lines 229-232, given how control left the \<^verbatim>\<open>try\<close> body: the
  exception still pending after them, if any.
\<close>

definition session_handlers :: "exn option \<Rightarrow> 'w state \<Rightarrow> exn option \<times> 'w state" where
  "session_handlers r st =
     (case r of
        None \<Rightarrow> (None, st)
      | Some e \<Rightarrow>
          (if e = KeyboardInterrupt then
             (None, logger Info (CHR 0x0A # ''Received shutdown signal (Ctrl+C)'') st)
           else if is_Exception e then
             (None, logger Error (''Unexpected error: '' @ str_exn e) st)
           else (Some e, st)))"

text \<open>
  The \<^verbatim>\<open>finally\<close> of lines 233-235 after the handlers. An exception raised by
  \<^verbatim>\<open>cleanup\<close> replaces the pending one.
\<close>

definition finish :: "'w os \<Rightarrow> exn option \<Rightarrow> 'w state \<Rightarrow> exn option \<times> 'w state" where
  "finish os r st =
     (case session_handlers r st of
        (pending, st1) \<Rightarrow>
          (case cleanup os st1 of
             (Some e, st2) \<Rightarrow> (Some e, st2)
           | (None, st2) \<Rightarrow> (pending, logger Success ''Cleanup completed successfully'' st2)))"

text \<open>
  Lines 126-235. The prompt for the URL is outside the \<^verbatim>\<open>try\<close>. The handlers and
  the \<^verbatim>\<open>finally\<close> run when control leaves the \<^verbatim>\<open>try\<close> body; a coroutine that the
  stopped event loop leaves suspended runs none of them.
\<close>

definition async_main ::
  "'w os \<Rightarrow> turn list \<Rightarrow> args \<Rightarrow> 'w state \<Rightarrow> (ended \<times> 'w state) option" where
  "async_main os sched a st =
     (case resolve_meeting_url os a st of
        None \<Rightarrow> None
      | Some (Inl e, st1) \<Rightarrow> Some (Ended (Some e), st1)
      | Some (Inr url, st1) \<Rightarrow>
          (case session os sched a url st1 of
             None \<Rightarrow> None
           | Some (Ended r, st2) \<Rightarrow>
               (case finish os r st2 of (pending, st3) \<Rightarrow> Some (Ended pending, st3))
           | Some (Suspended pc e, st2) \<Rightarrow> Some (Suspended pc e, st2)))"

text \<open>
  The win32 branch (line 259) runs the coroutine with \<^verbatim>\<open>asyncio.run\<close>. When the event
  loop has stopped with an exception, \<^verbatim>\<open>asyncio.run\<close> cancels the tasks that are not
  done, here the main task, and runs the loop until they are, before it lets the
  exception go on. The monitor task is done, with the exception \<open>e\<close> that stopped the
  loop. A main coroutine suspended at line 222 gets \<^verbatim>\<open>CancelledError\<close> there, runs lines
  223-226 and awaits the monitor task, which raises \<open>e\<close>; one suspended at line 227 awaits
  a task that is done and cannot be cancelled, so the \<^verbatim>\<open>CancelledError\<close> is raised at line
  227 itself. Either way control has left the \<^verbatim>\<open>try\<close> body, and the handlers and the
  \<^verbatim>\<open>finally\<close> follow.
\<close>

definition cancelled_at :: "main_pc \<Rightarrow> exn \<Rightarrow> 'w state \<Rightarrow> exn option \<times> 'w state" where
  "cancelled_at pc e st =
     (case pc of
        MainWait \<Rightarrow>
          (Some e,
           (logger Info (CHR 0x0A # ''Received shutdown signal'') st)\<lparr>shutdown_event := True\<rparr>)
      | MainJoin \<Rightarrow> (Some CancelledError, st)
      | MainLeft r \<Rightarrow> (r, st))"

definition asyncio_run_close :: "'w os \<Rightarrow> main_pc \<Rightarrow> exn \<Rightarrow> 'w state \<Rightarrow> 'w state" where
  "asyncio_run_close os pc e st =
     (case cancelled_at pc e st of (r, st1) \<Rightarrow> snd (finish os r st1))"

text \<open>
  Lines 237-262. Both platform branches run \<^verbatim>\<open>async_main\<close> in an event loop; an
  \<^verbatim>\<open>Exception\<close> that leaves it is logged and \<^verbatim>\<open>sys.exit(1)\<close> is called. When the event
  loop stopped with an exception, \<^verbatim>\<open>run_until_complete\<close> (line 254) raises it with the
  coroutine left where it is suspended, and line 256 closes the loop; \<^verbatim>\<open>asyncio.run\<close>
  raises it after the closing described above. When \<^verbatim>\<open>main\<close> returns the script ends
  and the interpreter exits with status 0. An exception that nothing catches ends the
  interpreter with a status that is not 0, taken as 1 here.
\<close>

datatype outcome = Returned | SysExit int | Uncaught exn

definition main ::
  "'w os \<Rightarrow> turn list \<Rightarrow> args \<Rightarrow> 'w state \<Rightarrow> (outcome \<times> 'w state) option" where
  "main os sched a st =
     (case async_main os sched a st of
        None \<Rightarrow> None
      | Some (Ended None, st1) \<Rightarrow> Some (Returned, st1)
      | Some (Ended (Some e), st1) \<Rightarrow>
          (if is_Exception e then
             Some (SysExit 1, logger Error (''Fatal error in main program: '' @ str_exn e) st1)
           else Some (Uncaught e, st1))
      | Some (Suspended pc e, st1) \<Rightarrow>
          (let st2 = (if win32 os then asyncio_run_close os pc e st1 else st1)
           in if is_Exception e then
                Some (SysExit 1, logger Error (''Fatal error in main program: '' @ str_exn e) st2)
              else Some (Uncaught e, st2)))"

fun exit_code :: "outcome \<Rightarrow> int" where
  "exit_code Returned = 0"
| "exit_code (SysExit n) = n"
| "exit_code (Uncaught e) = 1"

section \<open>Vocabulary of the properties\<close>

text \<open>The events a call appended: those of \<open>st'\<close> after the ones \<open>st\<close> already had.\<close>

definition new_events :: "'w state \<Rightarrow> 'w state \<Rightarrow> event list" where
  "new_events st st' = drop (length (events st)) (events st')"

text \<open>The process objects the registry holds.\<close>

definition tracked :: "'w state \<Rightarrow> handle list" where
  "tracked st = map (\<lambda>(name, process_info). process process_info) (processes st)"

text \<open>
  The severity the relay is to choose for a line, in the words of the specification:
  "ERROR" first, else "WARNING", else "SUCCESS", else info.
\<close>

definition relay_severity :: "string \<Rightarrow> severity" where
  "relay_severity line =
     (if contains line ''ERROR'' then Error
      else if contains line ''WARNING'' then Warning
      else if contains line ''SUCCESS'' then Success
      else Info)"

text \<open>
  The teardown of one registered process, as a transcript: the announcement, the
  request to terminate, the wait, the poll, a kill exactly when the poll found the
  process still running, and one closing line, success or failure. A call that
  raises an \<^verbatim>\<open>Exception\<close> ends the transcript with the failure line.
\<close>

inductive teardown :: "string \<Rightarrow> handle \<Rightarrow> event list \<Rightarrow> bool" where
  terminate_raised:
    "is_Exception e \<Longrightarrow>
     teardown name h
       [Log Info (''Terminating process: '' @ name), Terminate h (Some e),
        Log Error (''Error terminating process '' @ name @ '': '' @ str_exn e)]"
| wait_raised:
    "is_Exception e \<Longrightarrow>
     teardown name h
       [Log Info (''Terminating process: '' @ name), Terminate h None, Sleep (Some e),
        Log Error (''Error terminating process '' @ name @ '': '' @ str_exn e)]"
| poll_raised:
    "is_Exception e \<Longrightarrow>
     teardown name h
       [Log Info (''Terminating process: '' @ name), Terminate h None, Sleep None,
        Poll h (Inl e),
        Log Error (''Error terminating process '' @ name @ '': '' @ str_exn e)]"
| exited_in_time:
    "teardown name h
       [Log Info (''Terminating process: '' @ name), Terminate h None, Sleep None,
        Poll h (Inr (Some rc)),
        Log Success (''Process '' @ name @ '' terminated successfully'')]"
| killed:
    "teardown name h
       [Log Info (''Terminating process: '' @ name), Terminate h None, Sleep None,
        Poll h (Inr None), Kill h None,
        Log Success (''Process '' @ name @ '' terminated successfully'')]"
| kill_raised:
    "is_Exception e \<Longrightarrow>
     teardown name h
       [Log Info (''Terminating process: '' @ name), Terminate h None, Sleep None,
        Poll h (Inr None), Kill h (Some e),
        Log Error (''Error terminating process '' @ name @ '': '' @ str_exn e)]"

code_pred teardown .

text \<open>
  What one sweep does for one registered process: a poll, and for a process that has
  exited one warning with its name and exit code.
\<close>

inductive observed :: "string \<Rightarrow> handle \<Rightarrow> event list \<Rightarrow> bool" where
  still_running: "observed name h [Poll h (Inr None)]"
| has_exited:
    "observed name h
       [Poll h (Inr (Some rc)),
        Log Warning (''Process '' @ name @ '' exited with code: '' @ str_int rc)]"

code_pred observed .

text \<open>
  An environment whose process calls and waits raise nothing but \<^verbatim>\<open>Exception\<close>s:
  no cancellation and no interrupt is delivered during them.
\<close>

definition raises_only_errors :: "'w os \<Rightarrow> bool" where
  "raises_only_errors os =
     ((\<forall>h w e. fst (terminate os h w) = Some e \<longrightarrow> is_Exception e) \<and>
      (\<forall>w e. fst (sleep os w) = Some e \<longrightarrow> is_Exception e) \<and>
      (\<forall>h w e. fst (poll os h w) = Inl e \<longrightarrow> is_Exception e) \<and>
      (\<forall>h w e. fst (kill os h w) = Some e \<longrightarrow> is_Exception e))"

section \<open>A simulated environment\<close>

text \<open>
  A small deterministic operating system on which the theorems are exercised at
  concrete inputs. A child is running until it has an exit code. \<^verbatim>\<open>SIGTERM\<close> ends a
  running child with code -15 unless the child is stubborn, \<^verbatim>\<open>SIGKILL\<close> ends it with
  code -9, and both do nothing to a child that has exited. \<open>terminate\<close> is refused
  on the handles in \<open>denied\<close>, \<open>poll\<close> fails on those in \<open>broken\<close>, and no program can
  be started when \<open>executable\<close> is false. \<open>stdin\<close> holds the lines the user types.
\<close>

record sim =
  exited :: "(handle \<times> int) list"
  stubborn :: "handle list"
  denied :: "handle list"
  broken :: "handle list"
  next_handle :: handle
  executable :: bool
  stdin :: "string list"

definition sim_os :: "sim os" where
  "sim_os =
     \<lparr>popen = (\<lambda>cmd w.
        if executable w then (Inr (next_handle w), w\<lparr>next_handle := Suc (next_handle w)\<rparr>)
        else (Inl (OtherException ''[Errno 2] No such file or directory''), w)),
      thread_start = (\<lambda>h s label w. (None, w)),
      terminate = (\<lambda>h w.
        if h \<in> set (denied w) then (Some (OtherException ''[Errno 1] Operation not permitted''), w)
        else if h \<in> set (stubborn w) \<or> map_of (exited w) h \<noteq> None then (None, w)
        else (None, w\<lparr>exited := (h, - 15) # exited w\<rparr>)),
      sleep = (\<lambda>w. (None, w)),
      poll = (\<lambda>h w.
        if h \<in> set (broken w) then (Inl (OtherException ''poll failed''), w)
        else (Inr (map_of (exited w) h), w)),
      kill = (\<lambda>h w.
        if map_of (exited w) h \<noteq> None then (None, w)
        else (None, w\<lparr>exited := (h, - 9) # exited w\<rparr>)),
      input = (\<lambda>prompt w.
        case stdin w of
          [] \<Rightarrow> (Inl (OtherException ''EOF when reading a line''), w)
        | l # ls \<Rightarrow> (Inr l, w\<lparr>stdin := ls\<rparr>)),
      list_personas = (\<lambda>w. (Inr [''alpha'', ''beta''], w)),
      get_persona = (\<lambda>name w. (Inr [''prompt'' \<mapsto> ''You are '' @ name], w)),
      randbelow = (\<lambda>n w. (0, w)),
      format_exception = (\<lambda>e. ''Traceback (most recent call last)''),
      win32 = False\<rparr>"

definition sim_world :: sim where
  "sim_world =
     \<lparr>exited = [], stubborn = [], denied = [], broken = [], next_handle = 0,
      executable = True, stdin = []\<rparr>"

text \<open>A registry of two children, handles 0 and 1, on an empty log.\<close>

definition two_children :: "sim \<Rightarrow> sim state" where
  "two_children w =
     \<lparr>processes =
        [(''bot'', \<lparr>process = 0, command = [''poetry'', ''run'', ''bot'']\<rparr>),
         (''meeting'', \<lparr>process = 1, command = [''poetry'', ''run'', ''meetingbaas'']\<rparr>)],
      shutdown_event = False, selected_persona_name = Some ''alpha'',
      events = [], world = w\<lparr>next_handle := 2\<rparr>\<rparr>"

text \<open>
  The same operating system with an interrupt: the poll of the child with handle 1
  raises \<^verbatim>\<open>KeyboardInterrupt\<close>.
\<close>

definition interrupted_os :: "sim os" where
  "interrupted_os =
     sim_os\<lparr>poll := (\<lambda>h w. if h = 1 then (Inl KeyboardInterrupt, w) else poll sim_os h w)\<rparr>"

section \<open>Properties of the relay\<close>

lemma dropWhile_hd: "dropWhile P xs = y # ys \<Longrightarrow> \<not> P y"
  by (metis hd_dropWhile list.sel(1) list.distinct(1))

lemma rev_dropWhile_split:
  "xs = rev (dropWhile P (rev xs)) @ rev (takeWhile P (rev xs))"
  by (metis rev_append rev_rev_ident takeWhile_dropWhile_id)

lemma strip_empty_iff: "strip raw = [] \<longleftrightarrow> list_all isspace raw"
proof -
  have "strip raw = [] \<longleftrightarrow> (\<forall>c\<in>set (lstrip raw). isspace c)"
    by (simp add: strip_def rstrip_def)
  also have "\<dots> \<longleftrightarrow> lstrip raw = []"
  proof (cases "lstrip raw")
    case Nil then show ?thesis by simp
  next
    case (Cons x xs)
    then have "\<not> isspace x" unfolding lstrip_def by (rule dropWhile_hd)
    with Cons show ?thesis by auto
  qed
  also have "\<dots> \<longleftrightarrow> list_all isspace raw"
    by (simp add: lstrip_def list_all_iff)
  finally show ?thesis .
qed

lemma strip_decompose:
  "raw = takeWhile isspace raw @ strip raw @ rev (takeWhile isspace (rev (lstrip raw)))"
proof -
  have "lstrip raw = strip raw @ rev (takeWhile isspace (rev (lstrip raw)))"
    unfolding strip_def rstrip_def by (rule rev_dropWhile_split)
  moreover have "raw = takeWhile isspace raw @ lstrip raw"
    by (simp add: lstrip_def)
  ultimately show ?thesis by simp
qed

lemma strip_surrounded:
  "\<exists>a b. raw = a @ strip raw @ b \<and> list_all isspace a \<and> list_all isspace b"
proof -
  have "list_all isspace (takeWhile isspace raw)"
    by (simp add: list_all_iff) (meson set_takeWhileD)
  moreover have "list_all isspace (rev (takeWhile isspace (rev (lstrip raw))))"
    by (simp add: list_all_iff) (meson set_takeWhileD)
  ultimately show ?thesis using strip_decompose [of raw] by blast
qed

lemma strip_no_trailing: "strip raw = [] \<or> \<not> isspace (last (strip raw))"
proof (cases "dropWhile isspace (rev (lstrip raw))")
  case Nil
  then show ?thesis by (simp add: strip_def rstrip_def)
next
  case (Cons x xs)
  then have "\<not> isspace x" by (rule dropWhile_hd)
  with Cons show ?thesis
    by (simp add: strip_def rstrip_def)
qed

lemma sublist_dropWhile:
  "needle \<noteq> [] \<Longrightarrow> \<not> P (hd needle) \<Longrightarrow> sublist needle (dropWhile P s) = sublist needle s"
proof (induction s)
  case Nil
  then show ?case by simp
next
  case (Cons x xs)
  show ?case
  proof (cases "P x")
    case True
    with Cons.prems have "\<not> prefix needle (x # xs)"
      by (cases needle) auto
    with True Cons show ?thesis
      by (simp add: sublist_Cons_right)
  next
    case False
    then show ?thesis by simp
  qed
qed

lemma sublist_rev_dropWhile:
  "needle \<noteq> [] \<Longrightarrow> \<not> P (last needle) \<Longrightarrow>
     sublist needle (rev (dropWhile P (rev s))) = sublist needle s"
  using sublist_dropWhile [of "rev needle" P "rev s"]
  by (simp add: hd_rev sublist_rev_left)

lemma contains_strip:
  "needle \<noteq> [] \<Longrightarrow> \<not> isspace (hd needle) \<Longrightarrow> \<not> isspace (last needle) \<Longrightarrow>
   contains (strip raw) needle = contains raw needle"
  by (simp add: contains_def strip_def lstrip_def rstrip_def sublist_dropWhile sublist_rev_dropWhile)

lemma contains_strip_keywords:
  "contains (strip raw) ''ERROR'' = contains raw ''ERROR''"
  "contains (strip raw) ''WARNING'' = contains raw ''WARNING''"
  "contains (strip raw) ''SUCCESS'' = contains raw ''SUCCESS''"
  by (rule contains_strip; simp add: isspace_def)+

lemma log_line_eq:
  "log_line label raw =
     (if list_all isspace raw then []
      else [Log (relay_severity raw) (label @ '': '' @ strip raw)])"
  unfolding log_line_def Let_def relay_severity_def contains_strip_keywords
  using strip_empty_iff [of raw] by simp

lemma log_output_eq:
  "log_output stream label =
     concat (map (\<lambda>raw. if list_all isspace raw then []
                         else [Log (relay_severity raw) (label @ '': '' @ strip raw)]) stream)"
  by (induction stream) (simp_all add: log_line_eq)

text \<open>
  Claim C7. Every line fed to the relay is stripped; a line that is empty or only
  whitespace yields no log entry; every other line yields exactly one entry, the label,
  a colon and the stripped line, at the severity of the first of "ERROR", "WARNING",
  "SUCCESS" that the line contains, and at info when it contains none. The stripped
  line is the line without a run of whitespace at each end, so it has no trailing
  whitespace.
\<close>

theorem log_output_classifies:
  "log_output stream label =
     concat (map (\<lambda>raw. if list_all isspace raw then []
                         else [Log (relay_severity raw) (label @ '': '' @ strip raw)]) stream) \<and>
   (\<exists>a b. raw = a @ strip raw @ b \<and> list_all isspace a \<and> list_all isspace b) \<and>
   (strip raw = [] \<or> \<not> isspace (last (strip raw)))"
  using strip_surrounded [of raw] strip_no_trailing [of raw]
  by (simp add: log_output_eq)

theorem log_output_classifies_witness:
  "log_output [''starting up  '', ''   '', '''', '' WARNING: ERROR ahead'', ''WARNING SUCCESS'',
               ''  SUCCESS'' @ [CHR 0x0A]] ''bot'' =
     [Log Info ''bot: starting up'', Log Error ''bot: WARNING: ERROR ahead'',
      Log Warning ''bot: WARNING SUCCESS'', Log Success ''bot: SUCCESS'']"
  using log_output_classifies [of "[''starting up  '', ''   '', '''', '' WARNING: ERROR ahead'',
      ''WARNING SUCCESS'', ''  SUCCESS'' @ [CHR 0x0A]]" "''bot''" "''''"]
  by (simp add: relay_severity_def contains_def sublist_code strip_def lstrip_def rstrip_def
        isspace_def)

section \<open>Properties of cleanup\<close>

lemma env_call_eq:
  "env_call f ev st =
     (fst (f (world st)),
      st\<lparr>world := snd (f (world st)), events := events st @ [ev (fst (f (world st)))]\<rparr>)"
  by (simp add: env_call_def split: prod.splits)

lemma env_read_eq:
  "env_read f st = (fst (f (world st)), st\<lparr>world := snd (f (world st))\<rparr>)"
  by (simp add: env_read_def split: prod.splits)

lemma logger_state [simp]:
  "processes (logger sev m st) = processes st"
  "shutdown_event (logger sev m st) = shutdown_event st"
  "selected_persona_name (logger sev m st) = selected_persona_name st"
  "events (logger sev m st) = events st @ [Log sev m]"
  "world (logger sev m st) = world st"
  by (simp_all add: logger_def)

lemma terminate_process_state:
  assumes "terminate_process os name p st = (r, st')"
  shows "processes st' = processes st" and "shutdown_event st' = shutdown_event st"
  using assms unfolding terminate_process_def terminate_failed_def env_call_eq
  by (auto split: option.splits sum.splits if_splits)

lemma terminate_process_transcript:
  assumes "terminate_process os name p (logger Info (''Terminating process: '' @ name) st) = (r, st')"
  shows "\<exists>es. events st' = events st @ es \<and>
           (case r of None \<Rightarrow> teardown name p es | Some e \<Rightarrow> \<not> is_Exception e)"
  using assms unfolding terminate_process_def terminate_failed_def env_call_eq
  by (auto split: option.splits sum.splits if_splits intro: teardown.intros [simplified])

lemma terminate_process_calm:
  assumes "raises_only_errors os"
  shows "fst (terminate_process os name p st) = None"
  using assms unfolding terminate_process_def terminate_failed_def env_call_eq raises_only_errors_def
  by (auto split: option.splits sum.splits if_splits)

lemma cleanup_loop_state:
  "cleanup_loop os ps st = (r, st') \<Longrightarrow>
     processes st' = processes st \<and> shutdown_event st' = shutdown_event st"
proof (induction ps arbitrary: st)
  case Nil
  then show ?case by simp
next
  case (Cons a ps)
  obtain name process_info where a: "a = (name, process_info)" by (cases a)
  obtain r1 st1 where t: "terminate_process os name (process process_info)
      (logger Info (''Terminating process: '' @ name) st) = (r1, st1)"
    by (cases "terminate_process os name (process process_info)
      (logger Info (''Terminating process: '' @ name) st)")
  from terminate_process_state [OF t]
  have s1: "processes st1 = processes st" "shutdown_event st1 = shutdown_event st" by simp_all
  show ?case
  proof (cases r1)
    case None
    with Cons.prems a t have "cleanup_loop os ps st1 = (r, st')" by simp
    from Cons.IH [OF this] s1 show ?thesis by simp
  next
    case (Some e)
    with Cons.prems a t have "st' = st1" by simp
    with s1 show ?thesis by simp
  qed
qed

lemma cleanup_loop_transcript:
  "cleanup_loop os ps st = (r, st') \<Longrightarrow>
     (case r of
        None \<Rightarrow> \<exists>ess. events st' = events st @ concat ess \<and>
                  list_all2 (\<lambda>(name, process_info) es. teardown name (process process_info) es) ps ess
      | Some e \<Rightarrow> \<not> is_Exception e)"
proof (induction ps arbitrary: st)
  case Nil
  then show ?case by auto
next
  case (Cons a ps)
  obtain name process_info where a: "a = (name, process_info)" by (cases a)
  obtain r1 st1 where t: "terminate_process os name (process process_info)
      (logger Info (''Terminating process: '' @ name) st) = (r1, st1)"
    by (cases "terminate_process os name (process process_info)
      (logger Info (''Terminating process: '' @ name) st)")
  from terminate_process_transcript [OF t] obtain es where
    es: "events st1 = events st @ es"
        "case r1 of None \<Rightarrow> teardown name (process process_info) es | Some e \<Rightarrow> \<not> is_Exception e"
    by blast
  show ?case
  proof (cases r1)
    case None
    with Cons.prems a t have rest: "cleanup_loop os ps st1 = (r, st')" by simp
    show ?thesis
    proof (cases r)
      case None
      with Cons.IH [OF rest] obtain ess where
        ess: "events st' = events st1 @ concat ess"
             "list_all2 (\<lambda>(name, process_info) es. teardown name (process process_info) es) ps ess"
        by auto
      from es \<open>r1 = None\<close> have "teardown name (process process_info) es" by simp
      with ess es(1) a have
        "events st' = events st @ concat (es # ess) \<and>
         list_all2 (\<lambda>(name, process_info) es. teardown name (process process_info) es) (a # ps) (es # ess)"
        by simp
      with None show ?thesis by (simp only: option.case) blast
    next
      case (Some e)
      with Cons.IH [OF rest] show ?thesis by simp
    qed
  next
    case (Some e)
    with Cons.prems a t have "r = Some e" by simp
    with es(2) Some show ?thesis by simp
  qed
qed

lemma cleanup_loop_calm:
  "raises_only_errors os \<Longrightarrow> fst (cleanup_loop os ps st) = None"
proof (induction ps arbitrary: st)
  case Nil
  then show ?case by simp
next
  case (Cons a ps)
  obtain name process_info where a: "a = (name, process_info)" by (cases a)
  obtain r1 st1 where t: "terminate_process os name (process process_info)
      (logger Info (''Terminating process: '' @ name) st) = (r1, st1)"
    by (cases "terminate_process os name (process process_info)
      (logger Info (''Terminating process: '' @ name) st)")
  with terminate_process_calm [OF Cons.prems, of name "process process_info"
      "logger Info (''Terminating process: '' @ name) st"]
  have "r1 = None" by simp
  with a t Cons.IH [OF Cons.prems, of st1] show ?case by simp
qed

lemma cleanup_eq:
  assumes "cleanup_loop os (processes st) st = (r1, st1)"
  shows "cleanup os st =
     (case r1 of
        None \<Rightarrow> (None, logger Success ''Cleanup completed successfully'' st1)
      | Some e \<Rightarrow> (Some e, st1))"
proof (cases r1)
  case None
  with assms show ?thesis by (simp add: cleanup_def)
next
  case (Some e)
  with cleanup_loop_transcript [OF assms] have "\<not> is_Exception e" by simp
  with Some assms show ?thesis by (simp add: cleanup_def)
qed

lemma cleanup_state:
  "processes (snd (cleanup os st)) = processes st"
  "shutdown_event (snd (cleanup os st)) = shutdown_event st"
proof -
  obtain r1 st1 where l: "cleanup_loop os (processes st) st = (r1, st1)"
    by (cases "cleanup_loop os (processes st) st")
  from cleanup_loop_state [OF l] cleanup_eq [OF l]
  show "processes (snd (cleanup os st)) = processes st"
    "shutdown_event (snd (cleanup os st)) = shutdown_event st"
    by (cases r1; simp)+
qed

lemma cleanup_no_error: "fst (cleanup os st) = Some e \<Longrightarrow> \<not> is_Exception e"
proof -
  assume a: "fst (cleanup os st) = Some e"
  obtain r1 st1 where l: "cleanup_loop os (processes st) st = (r1, st1)"
    by (cases "cleanup_loop os (processes st) st")
  from a cleanup_eq [OF l] have "r1 = Some e" by (cases r1) simp_all
  with cleanup_loop_transcript [OF l] show ?thesis by simp
qed

lemma cleanup_calm:
  assumes "raises_only_errors os"
  shows "fst (cleanup os st) = None"
    and "last (events (snd (cleanup os st))) = Log Success ''Cleanup completed successfully''"
proof -
  obtain r1 st1 where l: "cleanup_loop os (processes st) st = (r1, st1)"
    by (cases "cleanup_loop os (processes st) st")
  with cleanup_loop_calm [OF assms, of "processes st" st] have "r1 = None" by simp
  with cleanup_eq [OF l]
  show "fst (cleanup os st) = None"
    "last (events (snd (cleanup os st))) = Log Success ''Cleanup completed successfully''"
    by simp_all
qed

lemma cleanup_transcript:
  assumes "fst (cleanup os st) = None"
  shows "\<exists>ess. new_events st (snd (cleanup os st)) =
                 concat ess @ [Log Success ''Cleanup completed successfully''] \<and>
               list_all2 (\<lambda>(name, process_info) es. teardown name (process process_info) es)
                 (processes st) ess"
proof -
  obtain r1 st1 where l: "cleanup_loop os (processes st) st = (r1, st1)"
    by (cases "cleanup_loop os (processes st) st")
  from assms cleanup_eq [OF l] have r1: "r1 = None" by (cases r1) simp_all
  with cleanup_loop_transcript [OF l] obtain ess where
    ess: "events st1 = events st @ concat ess"
    "list_all2 (\<lambda>(name, process_info) es. teardown name (process process_info) es) (processes st) ess"
    by auto
  from cleanup_eq [OF l] r1 ess(1)
  have "new_events st (snd (cleanup os st)) =
          concat ess @ [Log Success ''Cleanup completed successfully'']"
    by (simp add: new_events_def)
  with ess(2) show ?thesis by blast
qed

lemma sim_calm: "raises_only_errors sim_os"
  by (simp add: raises_only_errors_def sim_os_def)

lemmas sim_eval =
  cleanup_def terminate_process_def terminate_failed_def env_call_eq env_read_eq logger_def
  sim_os_def sim_world_def two_children_def new_events_def

text \<open>
  Claim C1. \<^verbatim>\<open>cleanup\<close> is idempotent. Whatever the registry and whatever the
  processes have done (an exited process included), a first and a second call leave
  the registry as it was, so in the same state after both; neither call lets an
  \<^verbatim>\<open>Exception\<close> escape; and when the environment delivers no cancellation or
  interrupt, both calls return normally and end with the line
  "Cleanup completed successfully".
\<close>

theorem cleanup_idempotent:
  "processes (snd (cleanup os st)) = processes st \<and>
   processes (snd (cleanup os (snd (cleanup os st)))) = processes (snd (cleanup os st)) \<and>
   (\<forall>e. fst (cleanup os st) = Some e \<longrightarrow> \<not> is_Exception e) \<and>
   (\<forall>e. fst (cleanup os (snd (cleanup os st))) = Some e \<longrightarrow> \<not> is_Exception e) \<and>
   (raises_only_errors os \<longrightarrow>
      fst (cleanup os st) = None \<and> fst (cleanup os (snd (cleanup os st))) = None \<and>
      last (events (snd (cleanup os st))) = Log Success ''Cleanup completed successfully'' \<and>
      last (events (snd (cleanup os (snd (cleanup os st))))) =
        Log Success ''Cleanup completed successfully'')"
proof -
  let ?st1 = "snd (cleanup os st)"
  have registry: "processes ?st1 = processes st"
    "processes (snd (cleanup os ?st1)) = processes ?st1"
    by (rule cleanup_state)+
  have no_error: "\<forall>e. fst (cleanup os st) = Some e \<longrightarrow> \<not> is_Exception e"
    "\<forall>e. fst (cleanup os ?st1) = Some e \<longrightarrow> \<not> is_Exception e"
    by (blast dest: cleanup_no_error)+
  have returns: "fst (cleanup os st) = None \<and> fst (cleanup os ?st1) = None \<and>
      last (events ?st1) = Log Success ''Cleanup completed successfully'' \<and>
      last (events (snd (cleanup os ?st1))) = Log Success ''Cleanup completed successfully''"
    if "raises_only_errors os"
    using cleanup_calm [OF that] by simp
  from registry no_error returns show ?thesis by blast
qed

theorem cleanup_idempotent_witness:
  "raises_only_errors sim_os \<and>
   fst (cleanup sim_os (two_children (sim_world\<lparr>exited := [(0, 1)]\<rparr>))) = None \<and>
   fst (cleanup sim_os (snd (cleanup sim_os (two_children (sim_world\<lparr>exited := [(0, 1)]\<rparr>))))) = None \<and>
   processes (snd (cleanup sim_os (snd (cleanup sim_os (two_children (sim_world\<lparr>exited := [(0, 1)]\<rparr>))))))
     = processes (two_children (sim_world\<lparr>exited := [(0, 1)]\<rparr>)) \<and>
   new_events (two_children (sim_world\<lparr>exited := [(0, 1)]\<rparr>))
     (snd (cleanup sim_os (two_children (sim_world\<lparr>exited := [(0, 1)]\<rparr>)))) =
     [Log Info ''Terminating process: bot'', Terminate 0 None, Sleep None, Poll 0 (Inr (Some 1)),
      Log Success ''Process bot terminated successfully'',
      Log Info ''Terminating process: meeting'', Terminate 1 None, Sleep None,
      Poll 1 (Inr (Some (- 15))), Log Success ''Process meeting terminated successfully'',
      Log Success ''Cleanup completed successfully'']"
proof -
  have "new_events (two_children (sim_world\<lparr>exited := [(0, 1)]\<rparr>))
     (snd (cleanup sim_os (two_children (sim_world\<lparr>exited := [(0, 1)]\<rparr>)))) =
     [Log Info ''Terminating process: bot'', Terminate 0 None, Sleep None, Poll 0 (Inr (Some 1)),
      Log Success ''Process bot terminated successfully'',
      Log Info ''Terminating process: meeting'', Terminate 1 None, Sleep None,
      Poll 1 (Inr (Some (- 15))), Log Success ''Process meeting terminated successfully'',
      Log Success ''Cleanup completed successfully'']"
    by (simp add: sim_eval)
  with cleanup_idempotent [of sim_os "two_children (sim_world\<lparr>exited := [(0, 1)]\<rparr>)"] sim_calm
  show ?thesis by simp
qed

lemma teardown_head:
  "teardown name h es \<Longrightarrow>
     \<exists>res rest. es = Log Info (''Terminating process: '' @ name) # Terminate h res # rest \<and>
       (\<forall>e. res = Some e \<longrightarrow>
          rest = [Log Error (''Error terminating process '' @ name @ '': '' @ str_exn e)])"
  by (erule teardown.cases) auto

text \<open>
  Claim C3, as the code has it. \<^verbatim>\<open>cleanup\<close> returns normally whenever the process
  calls and the wait raise nothing but \<^verbatim>\<open>Exception\<close>s. When it returns, what it did is
  one teardown per registered process, in the order of the registry, followed by the
  closing line. A teardown requests termination; if no call raises, it waits (the
  one-second sleep), polls, force-kills exactly when the poll found the process still
  running, and logs success for that process. If the request, the wait, the poll or
  the kill raises an \<^verbatim>\<open>Exception\<close>, the steps that remain for that process are skipped,
  the failure is logged for that process with the text of the exception, and the
  teardown of the next process follows: a process whose \<^verbatim>\<open>terminate\<close> raised is not
  waited for, not polled and not killed.
\<close>

theorem cleanup_teardown_until_failure:
  "(raises_only_errors os \<longrightarrow> fst (cleanup os st) = None) \<and>
   (fst (cleanup os st) = None \<longrightarrow>
      (\<exists>ess. new_events st (snd (cleanup os st)) =
               concat ess @ [Log Success ''Cleanup completed successfully''] \<and>
             list_all2 (\<lambda>(name, process_info) es. teardown name (process process_info) es)
               (processes st) ess))"
proof (intro conjI impI)
  assume "raises_only_errors os"
  then show "fst (cleanup os st) = None" by (rule cleanup_calm(1))
next
  assume "fst (cleanup os st) = None"
  then show "\<exists>ess. new_events st (snd (cleanup os st)) =
               concat ess @ [Log Success ''Cleanup completed successfully''] \<and>
             list_all2 (\<lambda>(name, process_info) es. teardown name (process process_info) es)
               (processes st) ess"
    by (rule cleanup_transcript)
qed

theorem cleanup_teardown_until_failure_witness:
  "raises_only_errors sim_os \<and>
   fst (cleanup sim_os (two_children (sim_world\<lparr>stubborn := [1], denied := [0]\<rparr>))) = None \<and>
   new_events (two_children (sim_world\<lparr>stubborn := [1], denied := [0]\<rparr>))
     (snd (cleanup sim_os (two_children (sim_world\<lparr>stubborn := [1], denied := [0]\<rparr>)))) =
     [Log Info ''Terminating process: bot'',
      Terminate 0 (Some (OtherException ''[Errno 1] Operation not permitted'')),
      Log Error ''Error terminating process bot: [Errno 1] Operation not permitted'',
      Log Info ''Terminating process: meeting'', Terminate 1 None, Sleep None,
      Poll 1 (Inr None), Kill 1 None, Log Success ''Process meeting terminated successfully'',
      Log Success ''Cleanup completed successfully''] \<and>
   (\<exists>ess. new_events (two_children (sim_world\<lparr>stubborn := [1], denied := [0]\<rparr>))
            (snd (cleanup sim_os (two_children (sim_world\<lparr>stubborn := [1], denied := [0]\<rparr>)))) =
            concat ess @ [Log Success ''Cleanup completed successfully''] \<and>
          list_all2 (\<lambda>(name, process_info) es. teardown name (process process_info) es)
            (processes (two_children (sim_world\<lparr>stubborn := [1], denied := [0]\<rparr>))) ess)"
proof -
  let ?st = "two_children (sim_world\<lparr>stubborn := [1], denied := [0]\<rparr>)"
  have e: "new_events ?st (snd (cleanup sim_os ?st)) =
     [Log Info ''Terminating process: bot'',
      Terminate 0 (Some (OtherException ''[Errno 1] Operation not permitted'')),
      Log Error ''Error terminating process bot: [Errno 1] Operation not permitted'',
      Log Info ''Terminating process: meeting'', Terminate 1 None, Sleep None,
      Poll 1 (Inr None), Kill 1 None, Log Success ''Process meeting terminated successfully'',
      Log Success ''Cleanup completed successfully'']"
    by (simp add: sim_eval)
  from cleanup_teardown_until_failure [of sim_os ?st] sim_calm
  have "fst (cleanup sim_os ?st) = None"
    and "\<exists>ess. new_events ?st (snd (cleanup sim_os ?st)) =
            concat ess @ [Log Success ''Cleanup completed successfully''] \<and>
          list_all2 (\<lambda>(name, process_info) es. teardown name (process process_info) es)
            (processes ?st) ess"
    by simp_all
  with sim_calm e show ?thesis by simp
qed

text \<open>
  Claim C3 as it was stated, for every registered process: \<^verbatim>\<open>terminate\<close> is refused
  for the second of two registered children. \<^verbatim>\<open>cleanup\<close> returns; for that child it
  has neither waited nor polled nor killed, and the child is still running afterwards.
\<close>

theorem refused_terminate_counterexample:
  "tracked (two_children (sim_world\<lparr>denied := [1]\<rparr>)) = [0, 1] \<and>
   fst (cleanup sim_os (two_children (sim_world\<lparr>denied := [1]\<rparr>))) = None \<and>
   new_events (two_children (sim_world\<lparr>denied := [1]\<rparr>))
     (snd (cleanup sim_os (two_children (sim_world\<lparr>denied := [1]\<rparr>)))) =
     [Log Info ''Terminating process: bot'', Terminate 0 None, Sleep None,
      Poll 0 (Inr (Some (- 15))), Log Success ''Process bot terminated successfully'',
      Log Info ''Terminating process: meeting'',
      Terminate 1 (Some (OtherException ''[Errno 1] Operation not permitted'')),
      Log Error ''Error terminating process meeting: [Errno 1] Operation not permitted'',
      Log Success ''Cleanup completed successfully''] \<and>
   fst (poll sim_os 1
          (world (snd (cleanup sim_os (two_children (sim_world\<lparr>denied := [1]\<rparr>)))))) = Inr None"
  by (simp add: sim_eval tracked_def)

text \<open>
  Claim C2. \<^verbatim>\<open>cleanup\<close> returns normally whenever the process calls and the wait
  raise nothing but \<^verbatim>\<open>Exception\<close>s, so an error raised by a request to terminate
  does not abort it. When \<^verbatim>\<open>cleanup\<close> returns, it has requested termination of every
  registered process, in order: the events split into one section per registry
  entry, each opening with the announcement and the \<^verbatim>\<open>terminate\<close> call on that
  entry's process. Where that call raised an error, the section is closed by the
  logged error, and the sections of the remaining processes follow.
\<close>

theorem cleanup_isolates_failures:
  "(raises_only_errors os \<longrightarrow> fst (cleanup os st) = None) \<and>
   (fst (cleanup os st) = None \<longrightarrow>
      (\<exists>ess. new_events st (snd (cleanup os st)) =
                 concat ess @ [Log Success ''Cleanup completed successfully''] \<and>
               length ess = length (processes st) \<and>
               (\<forall>i<length ess. \<exists>res rest.
                  ess ! i = Log Info (''Terminating process: '' @ fst (processes st ! i))
                            # Terminate (process (snd (processes st ! i))) res # rest \<and>
                  (\<forall>e. res = Some e \<longrightarrow>
                     rest = [Log Error (''Error terminating process '' @ fst (processes st ! i)
                                         @ '': '' @ str_exn e)]))))"
proof (intro conjI impI)
  assume "raises_only_errors os"
  then show "fst (cleanup os st) = None" by (rule cleanup_calm(1))
next
  assume "fst (cleanup os st) = None"
  from cleanup_transcript [OF this] obtain ess where
    ess: "new_events st (snd (cleanup os st)) =
            concat ess @ [Log Success ''Cleanup completed successfully'']"
         "list_all2 (\<lambda>(name, process_info) es. teardown name (process process_info) es)
            (processes st) ess"
    by blast
  from ess(2) have len: "length ess = length (processes st)"
    by (simp add: list_all2_lengthD)
  have "\<exists>res rest.
          ess ! i = Log Info (''Terminating process: '' @ fst (processes st ! i))
                    # Terminate (process (snd (processes st ! i))) res # rest \<and>
          (\<forall>e. res = Some e \<longrightarrow>
             rest = [Log Error (''Error terminating process '' @ fst (processes st ! i)
                                 @ '': '' @ str_exn e)])"
    if "i < length ess" for i
  proof -
    from that len ess(2)
    have "(\<lambda>(name, process_info) es. teardown name (process process_info) es)
            (processes st ! i) (ess ! i)"
      by (simp add: list_all2_nthD)
    then have "teardown (fst (processes st ! i)) (process (snd (processes st ! i))) (ess ! i)"
      by (simp add: case_prod_beta)
    then show ?thesis by (rule teardown_head)
  qed
  with ess(1) len
  show "\<exists>ess. new_events st (snd (cleanup os st)) =
                 concat ess @ [Log Success ''Cleanup completed successfully''] \<and>
               length ess = length (processes st) \<and>
               (\<forall>i<length ess. \<exists>res rest.
                  ess ! i = Log Info (''Terminating process: '' @ fst (processes st ! i))
                            # Terminate (process (snd (processes st ! i))) res # rest \<and>
                  (\<forall>e. res = Some e \<longrightarrow>
                     rest = [Log Error (''Error terminating process '' @ fst (processes st ! i)
                                         @ '': '' @ str_exn e)]))"
    by blast
qed

theorem cleanup_isolates_failures_witness:
  "raises_only_errors sim_os \<and>
   fst (cleanup sim_os (two_children (sim_world\<lparr>denied := [0]\<rparr>))) = None \<and>
   new_events (two_children (sim_world\<lparr>denied := [0]\<rparr>))
     (snd (cleanup sim_os (two_children (sim_world\<lparr>denied := [0]\<rparr>)))) =
     [Log Info ''Terminating process: bot'',
      Terminate 0 (Some (OtherException ''[Errno 1] Operation not permitted'')),
      Log Error ''Error terminating process bot: [Errno 1] Operation not permitted'',
      Log Info ''Terminating process: meeting'', Terminate 1 None, Sleep None,
      Poll 1 (Inr (Some (- 15))), Log Success ''Process meeting terminated successfully'',
      Log Success ''Cleanup completed successfully''] \<and>
   (\<exists>ess. new_events (two_children (sim_world\<lparr>denied := [0]\<rparr>))
            (snd (cleanup sim_os (two_children (sim_world\<lparr>denied := [0]\<rparr>)))) =
            concat ess @ [Log Success ''Cleanup completed successfully''] \<and>
          length ess = 2)"
proof -
  let ?st = "two_children (sim_world\<lparr>denied := [0]\<rparr>)"
  have e: "new_events ?st (snd (cleanup sim_os ?st)) =
     [Log Info ''Terminating process: bot'',
      Terminate 0 (Some (OtherException ''[Errno 1] Operation not permitted'')),
      Log Error ''Error terminating process bot: [Errno 1] Operation not permitted'',
      Log Info ''Terminating process: meeting'', Terminate 1 None, Sleep None,
      Poll 1 (Inr (Some (- 15))), Log Success ''Process meeting terminated successfully'',
      Log Success ''Cleanup completed successfully'']"
    by (simp add: sim_eval)
  have l: "length (processes ?st) = 2"
    by (simp add: two_children_def)
  from cleanup_isolates_failures [of sim_os ?st] sim_calm
  have r: "fst (cleanup sim_os ?st) = None" by simp
  with cleanup_isolates_failures [of sim_os ?st] l obtain ess where
    "new_events ?st (snd (cleanup sim_os ?st)) =
       concat ess @ [Log Success ''Cleanup completed successfully'']" "length ess = 2"
    by auto
  with sim_calm r e show ?thesis by blast
qed

section \<open>Properties of \<^verbatim>\<open>run_command\<close>\<close>

lemma in_set_update:
  "distinct (map fst al) \<Longrightarrow> (n, i) \<in> set (AList.update k v al) \<Longrightarrow>
     (n = k \<and> i = v) \<or> ((n, i) \<in> set al \<and> n \<noteq> k)"
  by (induction al) (auto split: if_splits simp: rev_image_eqI)

lemma length_update_present:
  "k \<in> fst ` set al \<Longrightarrow> length (AList.update k v al) = length al"
  using arg_cong [OF update_keys [of k v al], of length] by simp

lemma run_command_cases:
  assumes "run_command os cmd name st = (r, st')"
  shows "case r of
           Inr (Some p) \<Rightarrow>
             processes st' = AList.update name \<lparr>process = p, command = cmd\<rparr> (processes st) \<and>
             new_events st st' =
               [Popen cmd (Inr p), ThreadStart p Stdout name None, ThreadStart p Stderr name None]
         | _ \<Rightarrow> processes st' = processes st"
  using assms unfolding run_command_def start_failed_def env_call_eq new_events_def
  by (auto split: option.splits sum.splits if_splits)

lemma run_command_state:
  assumes "run_command os cmd name st = (r, st')"
  shows "shutdown_event st' = shutdown_event st"
    and "selected_persona_name st' = selected_persona_name st"
  using assms unfolding run_command_def start_failed_def env_call_eq
  by (auto split: option.splits sum.splits if_splits)

lemma terminate_process_targets:
  assumes "terminate_process os name p st = (r, st')"
  shows "\<exists>es. events st' = events st @ es \<and>
           (\<forall>h res. Terminate h res \<in> set es \<or> Kill h res \<in> set es \<longrightarrow> h = p)"
  using assms unfolding terminate_process_def terminate_failed_def env_call_eq
  by (auto split: option.splits sum.splits if_splits)

lemma cleanup_loop_targets:
  "cleanup_loop os ps st = (r, st') \<Longrightarrow>
     \<exists>es. events st' = events st @ es \<and>
       (\<forall>h res. Terminate h res \<in> set es \<or> Kill h res \<in> set es \<longrightarrow>
          h \<in> (\<lambda>(name, process_info). process process_info) ` set ps)"
proof (induction ps arbitrary: st)
  case Nil
  then show ?case by simp
next
  case (Cons a ps)
  obtain name process_info where a: "a = (name, process_info)" by (cases a)
  obtain r1 st1 where t: "terminate_process os name (process process_info)
      (logger Info (''Terminating process: '' @ name) st) = (r1, st1)"
    by (cases "terminate_process os name (process process_info)
      (logger Info (''Terminating process: '' @ name) st)")
  from terminate_process_targets [OF t] obtain es1 where
    es1: "events st1 = events st @ Log Info (''Terminating process: '' @ name) # es1"
         "\<forall>h res. Terminate h res \<in> set es1 \<or> Kill h res \<in> set es1 \<longrightarrow> h = process process_info"
    by auto
  show ?case
  proof (cases r1)
    case None
    with Cons.prems a t have "cleanup_loop os ps st1 = (r, st')" by simp
    from Cons.IH [OF this] obtain es2 where
      es2: "events st' = events st1 @ es2"
           "\<forall>h res. Terminate h res \<in> set es2 \<or> Kill h res \<in> set es2 \<longrightarrow>
              h \<in> (\<lambda>(name, process_info). process process_info) ` set ps"
      by blast
    from es1 es2 a have
      "events st' = events st @ (Log Info (''Terminating process: '' @ name) # es1 @ es2) \<and>
       (\<forall>h res. Terminate h res \<in> set (Log Info (''Terminating process: '' @ name) # es1 @ es2) \<or>
                 Kill h res \<in> set (Log Info (''Terminating process: '' @ name) # es1 @ es2) \<longrightarrow>
          h \<in> (\<lambda>(name, process_info). process process_info) ` set (a # ps))"
      by auto
    then show ?thesis by blast
  next
    case (Some e)
    with Cons.prems a t have "st' = st1" by simp
    with es1 a have
      "events st' = events st @ (Log Info (''Terminating process: '' @ name) # es1) \<and>
       (\<forall>h res. Terminate h res \<in> set (Log Info (''Terminating process: '' @ name) # es1) \<or>
                 Kill h res \<in> set (Log Info (''Terminating process: '' @ name) # es1) \<longrightarrow>
          h \<in> (\<lambda>(name, process_info). process process_info) ` set (a # ps))"
      by auto
    then show ?thesis by blast
  qed
qed

lemma cleanup_targets:
  assumes "Terminate h res \<in> set (new_events st (snd (cleanup os st))) \<or>
           Kill h res \<in> set (new_events st (snd (cleanup os st)))"
  shows "h \<in> set (tracked st)"
proof -
  obtain r1 st1 where l: "cleanup_loop os (processes st) st = (r1, st1)"
    by (cases "cleanup_loop os (processes st) st")
  from cleanup_loop_targets [OF l] obtain es where
    es: "events st1 = events st @ es"
        "\<forall>h res. Terminate h res \<in> set es \<or> Kill h res \<in> set es \<longrightarrow>
           h \<in> (\<lambda>(name, process_info). process process_info) ` set (processes st)"
    by blast
  from cleanup_eq [OF l] es(1)
  have "set (new_events st (snd (cleanup os st))) \<subseteq>
          set es \<union> {Log Success ''Cleanup completed successfully''}"
    by (cases r1) (auto simp: new_events_def)
  with assms es(2) show ?thesis by (auto simp: tracked_def)
qed

text \<open>
  Claim C10. The registry is a dict, so its keys are distinct. When \<^verbatim>\<open>run_command\<close>
  succeeds, the entry of the name becomes the new process, and all the call did was
  start the process and its two relays: it logged nothing and terminated nothing. If
  the name was present, the registry keeps its length, and the process registered
  before (a different object, registered under no other name) is no longer in the
  registry, so no later \<^verbatim>\<open>cleanup\<close>, in any environment, terminates or kills it.
  When \<^verbatim>\<open>run_command\<close> does not succeed, the registry is unchanged.
\<close>

theorem run_command_overwrites:
  assumes "run_command os cmd name st = (r, st')" and "distinct (map fst (processes st))"
  shows "case r of
           Inr (Some p) \<Rightarrow>
             processes st' = AList.update name \<lparr>process = p, command = cmd\<rparr> (processes st) \<and>
             map_of (processes st') name = Some \<lparr>process = p, command = cmd\<rparr> \<and>
             new_events st st' =
               [Popen cmd (Inr p), ThreadStart p Stdout name None, ThreadStart p Stderr name None] \<and>
             (\<forall>old. map_of (processes st) name = Some old \<and> process old \<noteq> p \<and>
                    (\<forall>n i. (n, i) \<in> set (processes st) \<and> process i = process old \<longrightarrow> n = name) \<longrightarrow>
                length (processes st') = length (processes st) \<and>
                process old \<notin> set (tracked st') \<and>
                (\<forall>os' res.
                   Terminate (process old) res \<notin> set (new_events st' (snd (cleanup os' st'))) \<and>
                   Kill (process old) res \<notin> set (new_events st' (snd (cleanup os' st')))))
         | _ \<Rightarrow> processes st' = processes st"
proof (cases "\<exists>p. r = Inr (Some p)")
  case False
  with run_command_cases [OF assms(1)] show ?thesis
    by (auto split: sum.splits option.splits)
next
  case True
  then obtain p where r: "r = Inr (Some p)" by blast
  with run_command_cases [OF assms(1)] have
    upd: "processes st' = AList.update name \<lparr>process = p, command = cmd\<rparr> (processes st)"
    and ev: "new_events st st' =
               [Popen cmd (Inr p), ThreadStart p Stdout name None, ThreadStart p Stderr name None]"
    by simp_all
  from upd have look: "map_of (processes st') name = Some \<lparr>process = p, command = cmd\<rparr>"
    by (simp add: update_conv')
  have old: "length (processes st') = length (processes st) \<and>
             process old \<notin> set (tracked st') \<and>
             (\<forall>os' res.
                Terminate (process old) res \<notin> set (new_events st' (snd (cleanup os' st'))) \<and>
                Kill (process old) res \<notin> set (new_events st' (snd (cleanup os' st'))))"
    if o: "map_of (processes st) name = Some old" "process old \<noteq> p"
      "\<forall>n i. (n, i) \<in> set (processes st) \<and> process i = process old \<longrightarrow> n = name"
    for old
  proof -
    from o(1) have "name \<in> fst ` set (processes st)"
      by (metis map_of_eq_None_iff option.distinct(1))
    with upd have len: "length (processes st') = length (processes st)"
      by (simp add: length_update_present)
    have nt: "process old \<notin> set (tracked st')"
    proof
      assume "process old \<in> set (tracked st')"
      then obtain n i where ni: "(n, i) \<in> set (processes st')" "process i = process old"
        by (auto simp: tracked_def)
      from ni(1) upd in_set_update [OF assms(2), of n i name "\<lparr>process = p, command = cmd\<rparr>"]
      consider "i = \<lparr>process = p, command = cmd\<rparr>" | "(n, i) \<in> set (processes st)" "n \<noteq> name"
        by auto
      then show False
      proof cases
        case 1
        with ni(2) o(2) show False by simp
      next
        case 2
        with o(3) ni(2) show False by blast
      qed
    qed
    with cleanup_targets [of "process old" _ st'] len show ?thesis by blast
  qed
  from r upd look ev old show ?thesis by simp
qed


theorem run_command_overwrites_witness:
  "distinct (map fst (processes (two_children sim_world))) \<and>
   fst (run_command sim_os [''poetry'', ''run'', ''bot'', ''-p'', ''8766''] ''bot''
          (two_children sim_world)) = Inr (Some 2) \<and>
   processes (snd (run_command sim_os [''poetry'', ''run'', ''bot'', ''-p'', ''8766''] ''bot''
          (two_children sim_world))) =
     [(''bot'', \<lparr>process = 2, command = [''poetry'', ''run'', ''bot'', ''-p'', ''8766'']\<rparr>),
      (''meeting'', \<lparr>process = 1, command = [''poetry'', ''run'', ''meetingbaas'']\<rparr>)] \<and>
   0 \<notin> set (tracked (snd (run_command sim_os [''poetry'', ''run'', ''bot'', ''-p'', ''8766'']
          ''bot'' (two_children sim_world)))) \<and>
   (\<forall>res. Terminate 0 res \<notin> set (new_events
        (snd (run_command sim_os [''poetry'', ''run'', ''bot'', ''-p'', ''8766''] ''bot''
               (two_children sim_world)))
        (snd (cleanup sim_os
               (snd (run_command sim_os [''poetry'', ''run'', ''bot'', ''-p'', ''8766''] ''bot''
                      (two_children sim_world))))))) \<and>
   fst (run_command sim_os [''poetry'', ''run'', ''bot'', ''-p'', ''8766''] ''bot''
          (two_children (sim_world\<lparr>executable := False\<rparr>))) = Inr None \<and>
   processes (snd (run_command sim_os [''poetry'', ''run'', ''bot'', ''-p'', ''8766''] ''bot''
          (two_children (sim_world\<lparr>executable := False\<rparr>)))) =
     processes (two_children (sim_world\<lparr>executable := False\<rparr>))"
proof -
  let ?cmd = "[''poetry'', ''run'', ''bot'', ''-p'', ''8766'']"
  let ?st = "two_children sim_world"
  let ?st' = "snd (run_command sim_os ?cmd ''bot'' ?st)"
  let ?bad = "two_children (sim_world\<lparr>executable := False\<rparr>)"
  have d: "distinct (map fst (processes ?st))"
    by (simp add: two_children_def)
  have r: "fst (run_command sim_os ?cmd ''bot'' ?st) = Inr (Some 2)"
    by (simp add: run_command_def start_failed_def sim_eval)
  let ?old = "\<lparr>process = 0, command = [''poetry'', ''run'', ''bot'']\<rparr>"
  have pre: "map_of (processes ?st) ''bot'' = Some ?old \<and> process ?old \<noteq> 2 \<and>
      (\<forall>n i. (n, i) \<in> set (processes ?st) \<and> process i = process ?old \<longrightarrow> n = ''bot'')"
    by (auto simp: two_children_def)
  from r have eq: "run_command sim_os ?cmd ''bot'' ?st = (Inr (Some 2), ?st')"
    by (simp add: prod_eq_iff)
  note th = run_command_overwrites [OF eq d, unfolded sum.case option.case]
  from th [THEN conjunct1] have p: "processes ?st' =
     [(''bot'', \<lparr>process = 2, command = ?cmd\<rparr>),
      (''meeting'', \<lparr>process = 1, command = [''poetry'', ''run'', ''meetingbaas'']\<rparr>)]"
    by (simp add: two_children_def)
  from th [THEN conjunct2, THEN conjunct2, THEN conjunct2, rule_format, OF pre]
  have gone: "0 \<notin> set (tracked ?st')"
    "\<forall>res. Terminate 0 res \<notin> set (new_events ?st' (snd (cleanup sim_os ?st')))"
    by simp_all
  from run_command_overwrites [of sim_os ?cmd "''bot''" ?bad "Inr None"
      "snd (run_command sim_os ?cmd ''bot'' ?bad)"]
  have f: "fst (run_command sim_os ?cmd ''bot'' ?bad) = Inr None"
    "processes (snd (run_command sim_os ?cmd ''bot'' ?bad)) = processes ?bad"
    by (simp_all add: run_command_def start_failed_def sim_eval)
  from d r p gone f show ?thesis by blast
qed

section \<open>Properties of the liveness sweep and of the shutdown flag\<close>

lemma sweep_state:
  "sweep os ps st = (r, st') \<Longrightarrow>
     processes st' = processes st \<and> shutdown_event st' = shutdown_event st"
proof (induction ps arbitrary: st)
  case Nil
  then show ?case by simp
next
  case (Cons a ps)
  obtain name process_info where a: "a = (name, process_info)" by (cases a)
  from Cons.prems a show ?case
    by (auto simp: env_call_eq split: sum.splits option.splits dest!: Cons.IH)
qed

lemma sweep_transcript:
  "sweep os ps st = (r, st') \<Longrightarrow>
     \<exists>es. events st' = events st @ es \<and>
       (\<forall>ev\<in>set es. (\<exists>h res. ev = Poll h res) \<or> (\<exists>m. ev = Log Warning m)) \<and>
       (r = None \<longrightarrow>
          (\<exists>ess. es = concat ess \<and>
             list_all2 (\<lambda>(name, process_info) es. observed name (process process_info) es) ps ess))"
proof (induction ps arbitrary: st)
  case Nil
  then show ?case by simp
next
  case (Cons a ps)
  obtain name process_info where a: "a = (name, process_info)" by (cases a)
  let ?h = "process process_info"
  let ?st1 = "st\<lparr>world := snd (poll os ?h (world st)),
                  events := events st @ [Poll ?h (fst (poll os ?h (world st)))]\<rparr>"
  show ?case
  proof (cases "fst (poll os ?h (world st))")
    case (Inl e)
    with Cons.prems a have "r = Some e" "st' = ?st1"
      by (simp_all add: env_call_eq)
    then show ?thesis by simp
  next
    case (Inr code)
    show ?thesis
    proof (cases code)
      case None
      with Inr Cons.prems a have "sweep os ps ?st1 = (r, st')"
        by (simp add: env_call_eq)
      from Cons.IH [OF this] obtain es where
        es: "events st' = events ?st1 @ es"
            "\<forall>ev\<in>set es. (\<exists>h res. ev = Poll h res) \<or> (\<exists>m. ev = Log Warning m)"
            "r = None \<longrightarrow> (\<exists>ess. es = concat ess \<and>
               list_all2 (\<lambda>(name, process_info) es. observed name (process process_info) es) ps ess)"
        by blast
      let ?mine = "[Poll ?h (Inr None)]"
      have "observed name ?h ?mine" by (rule observed.intros)
      have "r = None \<longrightarrow> (\<exists>ess. ?mine @ es = concat ess \<and>
           list_all2 (\<lambda>(name, process_info) es. observed name (process process_info) es) (a # ps) ess)"
      proof
        assume "r = None"
        with es(3) obtain ess where
          "es = concat ess"
          "list_all2 (\<lambda>(name, process_info) es. observed name (process process_info) es) ps ess"
          by blast
        with \<open>observed name ?h ?mine\<close> a have
          "?mine @ es = concat (?mine # ess) \<and>
           list_all2 (\<lambda>(name, process_info) es. observed name (process process_info) es)
             (a # ps) (?mine # ess)"
          by simp
        then show "\<exists>ess. ?mine @ es = concat ess \<and>
           list_all2 (\<lambda>(name, process_info) es. observed name (process process_info) es) (a # ps) ess"
          by blast
      qed
      with es(1,2) Inr None show ?thesis
        by (intro exI [of _ "?mine @ es"]) auto
    next
      case (Some rc)
      let ?st2 = "logger Warning (''Process '' @ name @ '' exited with code: '' @ str_int rc) ?st1"
      from Some Inr Cons.prems a have "sweep os ps ?st2 = (r, st')"
        by (simp add: env_call_eq)
      from Cons.IH [OF this] obtain es where
        es: "events st' = events ?st2 @ es"
            "\<forall>ev\<in>set es. (\<exists>h res. ev = Poll h res) \<or> (\<exists>m. ev = Log Warning m)"
            "r = None \<longrightarrow> (\<exists>ess. es = concat ess \<and>
               list_all2 (\<lambda>(name, process_info) es. observed name (process process_info) es) ps ess)"
        by blast
      let ?mine = "[Poll ?h (Inr (Some rc)),
                    Log Warning (''Process '' @ name @ '' exited with code: '' @ str_int rc)]"
      have "observed name ?h ?mine" by (rule observed.intros)
      have "r = None \<longrightarrow> (\<exists>ess. ?mine @ es = concat ess \<and>
           list_all2 (\<lambda>(name, process_info) es. observed name (process process_info) es) (a # ps) ess)"
      proof
        assume "r = None"
        with es(3) obtain ess where
          "es = concat ess"
          "list_all2 (\<lambda>(name, process_info) es. observed name (process process_info) es) ps ess"
          by blast
        with \<open>observed name ?h ?mine\<close> a have
          "?mine @ es = concat (?mine # ess) \<and>
           list_all2 (\<lambda>(name, process_info) es. observed name (process process_info) es)
             (a # ps) (?mine # ess)"
          by simp
        then show "\<exists>ess. ?mine @ es = concat ess \<and>
           list_all2 (\<lambda>(name, process_info) es. observed name (process process_info) es) (a # ps) ess"
          by blast
      qed
      with es(1,2) Inr Some show ?thesis
        by (intro exI [of _ "?mine @ es"]) auto
    qed
  qed
qed


lemma monitor_except_state:
  "monitor_except e st = (pc, st') \<Longrightarrow>
     processes st' = processes st \<and> shutdown_event st' = shutdown_event st \<and>
     (\<exists>es. events st' = events st @ es \<and> (\<forall>ev\<in>set es. \<exists>m. ev = Log Error m)) \<and>
     (\<forall>x. pc = MonDone (Some x) \<longrightarrow> \<not> is_Exception x) \<and> pc \<noteq> MonSleep \<and> pc \<noteq> MonReady"
  by (auto simp: monitor_except_def split: if_splits)

lemma monitor_head_set: "shutdown_event st \<Longrightarrow> monitor_head os st = (MonDone None, st)"
  by (simp add: monitor_head_def)

lemma monitor_head_state:
  assumes "monitor_head os st = (pc, st')"
  shows "processes st' = processes st" and "shutdown_event st' = shutdown_event st"
proof -
  obtain r st1 where sw: "sweep os (processes st) (st\<lparr>events := events st @ [Iteration]\<rparr>) = (r, st1)"
    by (cases "sweep os (processes st) (st\<lparr>events := events st @ [Iteration]\<rparr>)")
  from sweep_state [OF sw] have s1: "processes st1 = processes st" "shutdown_event st1 = shutdown_event st"
    by simp_all
  from assms sw s1 show "processes st' = processes st" "shutdown_event st' = shutdown_event st"
    by (auto simp: monitor_head_def split: if_splits option.splits dest: monitor_except_state)
qed

lemma monitor_resume_state:
  assumes "monitor_resume os pc st = (pc', st')"
  shows "processes st' = processes st" and "shutdown_event st' = shutdown_event st"
  using assms
  by (auto simp: monitor_resume_def env_call_eq split: mon_pc.splits option.splits
      dest: monitor_head_state monitor_except_state)

lemma monitor_resume_set:
  assumes "shutdown_event st"
  shows "count_list (events (snd (monitor_resume os pc st))) Iteration = count_list (events st) Iteration"
proof (cases pc)
  case MonReady
  with assms show ?thesis by (simp add: monitor_resume_def monitor_head_set)
next
  case MonSleep
  with assms show ?thesis
    by (auto simp: monitor_resume_def monitor_head_set monitor_except_def env_call_eq
        split: option.splits)
next
  case MonSleepErr
  with assms show ?thesis
    by (auto simp: monitor_resume_def monitor_head_set env_call_eq split: option.splits)
next
  case (MonDone r)
  then show ?thesis by (simp add: monitor_resume_def)
qed

lemma run_step_set:
  assumes "shutdown_event (cstate c)"
  shows "shutdown_event (cstate (run_step os ch c))"
    and "count_list (events (cstate (run_step os ch c))) Iteration =
         count_list (events (cstate c)) Iteration"
proof -
  obtain pc st where m: "monitor_resume os (monitor_task c) (cstate c) = (pc, st)"
    by (cases "monitor_resume os (monitor_task c) (cstate c)")
  from monitor_resume_state [OF m] assms have f: "shutdown_event st" by simp
  from monitor_resume_set [OF assms, of os "monitor_task c"] m
  have n: "count_list (events st) Iteration = count_list (events (cstate c)) Iteration" by simp
  from assms f m show "shutdown_event (cstate (run_step os ch c))"
    by (cases ch)
       (auto simp: run_step_def signal_handler_def main_resume_def main_cancelled_def
          split: main_pc.splits mon_pc.splits)
  from assms n m show "count_list (events (cstate (run_step os ch c))) Iteration =
         count_list (events (cstate c)) Iteration"
    by (cases ch)
       (auto simp: run_step_def signal_handler_def main_resume_def main_cancelled_def
          split: main_pc.splits mon_pc.splits)
qed

lemma running_set:
  "shutdown_event (cstate c) \<Longrightarrow>
     shutdown_event (cstate (running os sched c)) \<and>
     count_list (events (cstate (running os sched c))) Iteration =
       count_list (events (cstate c)) Iteration"
proof (induction sched arbitrary: c)
  case Nil
  then show ?case by simp
next
  case (Cons ch sched)
  from run_step_set [OF Cons.prems, of os ch] Cons.IH [of "run_step os ch c"]
  show ?case by simp
qed

lemma session_handlers_state:
  assumes "session_handlers r st = (pending, st1)"
  shows "processes st1 = processes st" and "shutdown_event st1 = shutdown_event st"
    and "\<And>e. pending = Some e \<Longrightarrow> \<not> is_Exception e"
  using assms by (auto simp: session_handlers_def split: option.splits if_splits)

lemma finish_state:
  "shutdown_event (snd (finish os r st)) = shutdown_event st"
  "processes (snd (finish os r st)) = processes st"
proof -
  obtain pending st1 where h: "session_handlers r st = (pending, st1)"
    by (cases "session_handlers r st")
  obtain r2 st2 where c: "cleanup os st1 = (r2, st2)"
    by (cases "cleanup os st1")
  from cleanup_state [of os st1] c
  have "shutdown_event st2 = shutdown_event st1" "processes st2 = processes st1" by simp_all
  with session_handlers_state [OF h] h c
  show "shutdown_event (snd (finish os r st)) = shutdown_event st"
    "processes (snd (finish os r st)) = processes st"
    by (cases r2; simp add: finish_def)+
qed

lemma get_user_input_state:
  assumes "get_user_input os prompt validator st = Some y"
  shows "shutdown_event (snd y) = shutdown_event st \<and> processes (snd y) = processes st \<and>
     (\<exists>es. events (snd y) = events st @ es \<and> (\<forall>ev\<in>set es. \<exists>m. ev = Log Warning m))"
  using assms
proof (induction os prompt validator st y rule: get_user_input.raw_induct)
  case (1 f os prompt validator st y)
  let ?st1 = "st\<lparr>world := snd (input os prompt (world st))\<rparr>"
  have fin: ?case if "snd y = ?st1"
    using that by simp
  show ?case
  proof (cases "fst (input os prompt (world st))")
    case (Inl e)
    with 1(2) have "snd y = ?st1" by (auto simp: env_read_eq)
    then show ?thesis by (rule fin)
  next
    case (Inr typed)
    note typed = Inr
    show ?thesis
    proof (cases validator)
      case None
      with typed 1(2) have "snd y = ?st1" by (auto simp: env_read_eq)
      then show ?thesis by (rule fin)
    next
      case (Some v)
      show ?thesis
      proof (cases "v (strip typed)")
        case (Inr x)
        with Some typed 1(2) have "snd y = ?st1" by (auto simp: env_read_eq)
        then show ?thesis by (rule fin)
      next
        case (Inl e)
        show ?thesis
        proof (cases e)
          case (ValueError m)
          let ?st2 = "logger Warning (''Invalid input received: '' @ m) ?st1"
          from ValueError Inl Some typed 1(2)
          have a: "f os prompt validator ?st2 = Some y"
            by (simp add: env_read_eq)
          from 1(3) have "get_user_input os prompt validator ?st2 = Some y"
            by (subst (asm) get_user_input.simps) (simp add: env_read_eq ValueError Inl Some typed)
          from 1(1) [OF a this] obtain es where
            "shutdown_event (snd y) = shutdown_event ?st2" "processes (snd y) = processes ?st2"
            "events (snd y) = events ?st2 @ es" "\<forall>ev\<in>set es. \<exists>m. ev = Log Warning m"
            by blast
          then have "shutdown_event (snd y) = shutdown_event st \<and> processes (snd y) = processes st \<and>
            events (snd y) = events st @ (Log Warning (''Invalid input received: '' @ m) # es) \<and>
            (\<forall>ev\<in>set (Log Warning (''Invalid input received: '' @ m) # es). \<exists>m. ev = Log Warning m)"
            by simp
          then show ?thesis by blast
        next
          case (OtherException m)
          with Inl Some typed 1(2) have "snd y = ?st1" by (auto simp: env_read_eq)
          then show ?thesis by (rule fin)
        next
          case CancelledError
          with Inl Some typed 1(2) have "snd y = ?st1" by (auto simp: env_read_eq)
          then show ?thesis by (rule fin)
        next
          case KeyboardInterrupt
          with Inl Some typed 1(2) have "snd y = ?st1" by (auto simp: env_read_eq)
          then show ?thesis by (rule fin)
        qed
      qed
    qed
  qed
qed (rule assms)

lemma resolve_meeting_url_state:
  assumes "resolve_meeting_url os a st = Some y"
  shows "shutdown_event (snd y) = shutdown_event st \<and> processes (snd y) = processes st \<and>
     (\<exists>es. events (snd y) = events st @ es \<and> (\<forall>ev\<in>set es. \<exists>m. ev = Log Warning m))"
proof (cases "get_user_input os ''Enter the meeting URL (must start with https://): ''
                (Some validate_url) st = Some y")
  case True
  then show ?thesis by (rule get_user_input_state)
next
  case False
  with assms have "snd y = st"
    by (auto simp: resolve_meeting_url_def split: option.splits if_splits)
  then show ?thesis by simp
qed

lemma random_choice_state:
  assumes "random_choice os seq st = (r, st')"
  shows "shutdown_event st' = shutdown_event st" and "processes st' = processes st"
    and "events st' = events st"
  using assms by (auto simp: random_choice_def env_read_eq split: if_splits)

lemma select_persona_state:
  assumes "select_persona os a available st = (r, st')"
  shows "shutdown_event st' = shutdown_event st" and "processes st' = processes st"
    and "events st' = events st"
proof -
  have "shutdown_event st' = shutdown_event st \<and> processes st' = processes st \<and>
        events st' = events st"
  proof (cases "random_choice os available st = (r, st')")
    case True
    from random_choice_state [OF this] show ?thesis by simp
  next
    case False
    with assms have "st' = st"
      by (auto simp: select_persona_def split: option.splits if_splits)
    then show ?thesis by simp
  qed
  then show "shutdown_event st' = shutdown_event st" "processes st' = processes st"
    "events st' = events st"
    by simp_all
qed

lemma resolve_persona_state:
  assumes "resolve_persona os a st = (r, st')"
  shows "shutdown_event st' = shutdown_event st" and "processes st' = processes st"
    and "\<exists>es. events st' = events st @ es \<and> (\<forall>ev\<in>set es. \<exists>sev m. ev = Log sev m)"
proof -
  let ?st0 = "logger Info ''Starting bot with random persona selection...'' st"
  let ?st1 = "?st0\<lparr>world := snd (list_personas os (world ?st0))\<rparr>"
  have "shutdown_event st' = shutdown_event st \<and> processes st' = processes st \<and>
        (\<exists>es. events st' = events st @ es \<and> (\<forall>ev\<in>set es. \<exists>sev m. ev = Log sev m))"
  proof (cases "fst (list_personas os (world ?st0))")
    case (Inl e)
    with assms have "st' = ?st1"
      by (auto simp: resolve_persona_def env_read_eq)
    then show ?thesis by simp
  next
    case (Inr available)
    obtain r2 st2 where sel: "select_persona os a available ?st1 = (r2, st2)"
      by (cases "select_persona os a available ?st1")
    from select_persona_state [OF sel] have
      s2: "shutdown_event st2 = shutdown_event st" "processes st2 = processes st"
          "events st2 = events st @ [Log Info ''Starting bot with random persona selection...'']"
      by simp_all
    show ?thesis
    proof (cases r2)
      case (Inl e)
      with assms Inr sel have "st' = st2"
        by (simp add: resolve_persona_def env_read_eq)
      with s2 show ?thesis by simp
    next
      case (Inr name)
      let ?st3 = "st2\<lparr>selected_persona_name := Some name,
                     world := snd (get_persona os name (world st2))\<rparr>"
      from assms \<open>fst (list_personas os (world ?st0)) = Inr available\<close> sel Inr
      have "st' = ?st3 \<or>
            (\<exists>bot_prompt. st' = logger Warning (''System prompt: '' @ bot_prompt)
                                  (logger Warning (''Selected persona: '' @ name) ?st3))"
        by (auto simp: resolve_persona_def env_read_eq split: sum.splits option.splits)
      with s2 show ?thesis by auto
    qed
  qed
  then show "shutdown_event st' = shutdown_event st" "processes st' = processes st"
    "\<exists>es. events st' = events st @ es \<and> (\<forall>ev\<in>set es. \<exists>sev m. ev = Log sev m)"
    by simp_all
qed

lemma run_command_events:
  assumes "run_command os cmd name st = (r, st')"
  shows "\<exists>es. events st' = events st @ es \<and>
           (\<forall>c res. Popen c res \<in> set es \<longrightarrow> c = cmd) \<and>
           (\<forall>ev\<in>set es. \<not> (\<exists>h res. ev = Terminate h res \<or> ev = Kill h res) \<and>
                        ev \<noteq> Iteration)"
  using assms unfolding run_command_def start_failed_def env_call_eq
  by (auto split: option.splits sum.splits if_splits)

lemma start_processes_flag:
  assumes "start_processes os a url name bot_prompt st = (ph, st')"
  shows "shutdown_event st' = shutdown_event st"
proof -
  obtain r1 st1 where b: "run_command os (bot_command (port a) bot_prompt name) ''bot'' st = (r1, st1)"
    by (cases "run_command os (bot_command (port a) bot_prompt name) ''bot'' st")
  let ?st2 = "snd (env_call (sleep os) Sleep st1)"
  obtain r3 st3 where m: "run_command os (meeting_command url name) ''meeting'' ?st2 = (r3, st3)"
    by (cases "run_command os (meeting_command url name) ''meeting'' ?st2")
  from run_command_state(1) [OF b] run_command_state(1) [OF m]
  have f: "shutdown_event st1 = shutdown_event st" "shutdown_event st3 = shutdown_event st"
    by (simp_all add: env_call_eq)
  have "st' = st1 \<or> st' = logger Error ''Failed to start bot'' st1 \<or> st' = ?st2 \<or> st' = st3 \<or>
        st' = logger Error ''Failed to start meeting'' st3 \<or>
        st' = logger Info ''Press Ctrl+C to stop all processes''
                (logger Success ''Successfully started bot and meeting processes'' st3)"
    using assms b m unfolding start_processes_def
    by (auto simp: env_call_eq split: sum.splits option.splits)
  with f show ?thesis by (auto simp: env_call_eq)
qed

lemma session_flag:
  assumes "session os sched a url st = Some (r, st')" and "shutdown_event st"
  shows "shutdown_event st'"
proof -
  obtain r1 st1 where p: "resolve_persona os a st = (r1, st1)"
    by (cases "resolve_persona os a st")
  from resolve_persona_state(1) [OF p] assms(2) have f1: "shutdown_event st1" by simp
  show ?thesis
  proof (cases r1)
    case (Inl e)
    with assms(1) p have "st' = st1" by (simp add: session_def)
    with f1 show ?thesis by simp
  next
    case (Inr np)
    obtain name bot_prompt where np: "np = (name, bot_prompt)" by (cases np)
    obtain ph st2 where s: "start_processes os a url name bot_prompt st1 = (ph, st2)"
      by (cases "start_processes os a url name bot_prompt st1")
    from start_processes_flag [OF s] f1 have f2: "shutdown_event st2" by simp
    show ?thesis
    proof (cases ph)
      case (Leave x)
      with assms(1) p Inr np s have "st' = st2" by (simp add: session_def)
      with f2 show ?thesis by simp
    next
      case Run
      let ?c = "running os sched \<lparr>main_task = MainWait, monitor_task = MonReady, cstate = st2\<rparr>"
      from assms(1) p Inr np s Run have "st' = cstate ?c"
        by (auto simp: session_def Let_def split: main_pc.splits option.splits)
      moreover from f2 have "shutdown_event (cstate ?c)"
        using running_set [of "\<lparr>main_task = MainWait, monitor_task = MonReady, cstate = st2\<rparr>" os sched]
        by simp
      ultimately show ?thesis by simp
    qed
  qed
qed

lemma async_main_flag:
  assumes "async_main os sched a st = Some (r, st')" and "shutdown_event st"
  shows "shutdown_event st'"
proof (cases "resolve_meeting_url os a st")
  case None
  with assms(1) show ?thesis by (simp add: async_main_def)
next
  case (Some y)
  obtain u st1 where y: "y = (u, st1)" by (cases y)
  from resolve_meeting_url_state [OF Some] y assms(2) have f1: "shutdown_event st1" by simp
  show ?thesis
  proof (cases u)
    case (Inl e)
    with assms(1) Some y have "st' = st1" by (simp add: async_main_def)
    with f1 show ?thesis by simp
  next
    case (Inr url)
    show ?thesis
    proof (cases "session os sched a url st1")
      case None
      with assms(1) Some y Inr show ?thesis by (simp add: async_main_def)
    next
      case (Some z)
      obtain r2 st2 where z: "z = (r2, st2)" by (cases z)
      from session_flag [of os sched a url st1 r2 st2] Some z f1 have "shutdown_event st2" by simp
      moreover have "st' = st2 \<or> (\<exists>r3. st' = snd (finish os r3 st2))"
      proof (cases r2)
        case (Ended r3)
        obtain pending st3 where f: "finish os r3 st2 = (pending, st3)"
          by (cases "finish os r3 st2")
        with assms(1) \<open>resolve_meeting_url os a st = Some y\<close> y Inr Some z Ended
        have "st' = st3" by (simp add: async_main_def)
        with f have "st' = snd (finish os r3 st2)" by simp
        then show ?thesis by blast
      next
        case (Suspended pc e)
        with assms(1) \<open>resolve_meeting_url os a st = Some y\<close> y Inr Some z
        show ?thesis by (simp add: async_main_def)
      qed
      ultimately show ?thesis by (auto simp: finish_state)
    qed
  qed
qed

lemma cancelled_at_flag:
  "shutdown_event st \<Longrightarrow> shutdown_event (snd (cancelled_at pc e st))"
  by (cases pc) (simp_all add: cancelled_at_def)

lemma asyncio_run_close_flag:
  assumes "shutdown_event st"
  shows "shutdown_event (asyncio_run_close os pc e st)"
proof -
  obtain r st1 where c: "cancelled_at pc e st = (r, st1)" by (cases "cancelled_at pc e st")
  with cancelled_at_flag [OF assms, of pc e] have "shutdown_event st1" by simp
  with c show ?thesis by (simp add: asyncio_run_close_def finish_state)
qed

lemma main_flag:
  assumes "main os sched a st = Some (out, st')" and "shutdown_event st"
  shows "shutdown_event st'"
proof (cases "async_main os sched a st")
  case None
  with assms(1) show ?thesis by (simp add: main_def)
next
  case (Some y)
  obtain r st1 where y: "y = (r, st1)" by (cases y)
  from async_main_flag [of os sched a st r st1] Some y assms(2) have "shutdown_event st1" by simp
  then have f1: "shutdown_event st1" .
  show ?thesis
  proof (cases r)
    case (Ended x)
    with assms(1) Some y have "st' = st1 \<or> (\<exists>m. st' = logger Error m st1)"
      by (auto simp: main_def split: option.splits if_splits)
    with f1 show ?thesis by auto
  next
    case (Suspended pc e)
    let ?st2 = "if win32 os then asyncio_run_close os pc e st1 else st1"
    from f1 have "shutdown_event ?st2" by (simp add: asyncio_run_close_flag)
    moreover from assms(1) Some y Suspended
    have "st' = ?st2 \<or> (\<exists>m. st' = logger Error m ?st2)"
      by (cases "is_Exception e") (auto simp: main_def Let_def)
    ultimately show ?thesis by auto
  qed
qed

text \<open>
  Claim C4. The shutdown flag is set once. Along every schedule of the running phase
  (signal handler, monitor coroutine, main coroutine and cancellation of the wait,
  in any interleaving), a flag that is set stays set, and from then on the monitor
  loop enters its body no more: the number of iterations begun does not grow: a
  monitor that is suspended in its sleep when the flag is set finishes that sleep and
  leaves the loop. The handler sets the flag, and no other component clears it:
  not \<^verbatim>\<open>cleanup\<close>, not the handlers and the \<^verbatim>\<open>finally\<close> of \<^verbatim>\<open>async_main\<close>, and no run
  of \<^verbatim>\<open>main\<close> as a whole.
\<close>

theorem shutdown_is_set_once:
  "(shutdown_event (cstate c) \<longrightarrow>
      shutdown_event (cstate (running os sched c)) \<and>
      count_list (events (cstate (running os sched c))) Iteration =
        count_list (events (cstate c)) Iteration) \<and>
   shutdown_event (signal_handler st) \<and>
   shutdown_event (snd (cleanup os st)) = shutdown_event st \<and>
   shutdown_event (snd (finish os r st)) = shutdown_event st \<and>
   (\<forall>out st'. shutdown_event st \<and> main os sched a st = Some (out, st') \<longrightarrow> shutdown_event st')"
  using running_set [of c os sched] main_flag [of os sched a st]
  by (simp add: signal_handler_def cleanup_state finish_state)

lemmas run_eval =
  run_step_def loop_stopped_def stops_loop_def monitor_resume_def monitor_head_def
  monitor_except_def main_resume_def main_cancelled_def signal_handler_def

theorem shutdown_is_set_once_witness:
  "shutdown_event (cstate \<lparr>main_task = MainWait, monitor_task = MonSleep,
                          cstate = signal_handler (two_children sim_world)\<rparr>) \<and>
   shutdown_event (cstate (running sim_os [RunMonitor, RunMain, RunMain]
      \<lparr>main_task = MainWait, monitor_task = MonSleep,
       cstate = signal_handler (two_children sim_world)\<rparr>)) \<and>
   count_list (events (cstate (running sim_os [RunMonitor, RunMain, RunMain]
      \<lparr>main_task = MainWait, monitor_task = MonSleep,
       cstate = signal_handler (two_children sim_world)\<rparr>))) Iteration = 0 \<and>
   main_task (running sim_os [RunMonitor, RunMain, RunMain]
      \<lparr>main_task = MainWait, monitor_task = MonSleep,
       cstate = signal_handler (two_children sim_world)\<rparr>) = MainLeft None \<and>
   events (cstate (running sim_os [RunMonitor, RunSignal, RunMonitor, RunMonitor, RunMain, RunMain]
      \<lparr>main_task = MainWait, monitor_task = MonReady, cstate = two_children sim_world\<rparr>)) =
     [Iteration, Poll 0 (Inr None), Poll 1 (Inr None), Sleep None]"
proof -
  let ?c = "\<lparr>main_task = MainWait, monitor_task = MonSleep,
             cstate = signal_handler (two_children sim_world)\<rparr>"
  have s: "shutdown_event (cstate ?c)" by (simp add: signal_handler_def)
  have z: "count_list (events (cstate ?c)) Iteration = 0"
    by (simp add: signal_handler_def two_children_def)
  have m: "main_task (running sim_os [RunMonitor, RunMain, RunMain] ?c) = MainLeft None"
    by (simp add: run_eval sim_eval)
  have e: "events (cstate (running sim_os
      [RunMonitor, RunSignal, RunMonitor, RunMonitor, RunMain, RunMain]
      \<lparr>main_task = MainWait, monitor_task = MonReady, cstate = two_children sim_world\<rparr>)) =
     [Iteration, Poll 0 (Inr None), Poll 1 (Inr None), Sleep None]"
    by (simp add: run_eval sim_eval)
  from shutdown_is_set_once [of ?c sim_os "[RunMonitor, RunMain, RunMain]"] s z m e
  show ?thesis by simp
qed

text \<open>
  Claim C5. One iteration of the liveness sweep, begun with the flag unset. It leaves
  the registry and the flag as they are; all it does is poll and log, it starts,
  terminates and kills nothing; no \<^verbatim>\<open>Exception\<close> leaves the monitor. When the
  polls succeed the monitor goes to its sleep, having logged for every exited child,
  in registry order, one warning with the name and the exit code. When a poll
  raises an unexpected error, the error is logged and the monitor sleeps in the
  handler; when that sleep completes the next iteration begins. A \<^verbatim>\<open>cleanup\<close> after
  the sweep lets no \<^verbatim>\<open>Exception\<close> escape, leaves the registry as it is, and returns
  normally when the environment delivers no cancellation or interrupt.
\<close>

theorem sweep_is_non_fatal:
  assumes "\<not> shutdown_event st" and "monitor_head os st = (pc, st')"
  shows "processes st' = processes st \<and> \<not> shutdown_event st' \<and>
         (\<forall>ev\<in>set (new_events st st').
            ev = Iteration \<or> (\<exists>h res. ev = Poll h res) \<or> (\<exists>m. ev = Log Warning m) \<or>
            (\<exists>m. ev = Log Error m)) \<and>
         (\<forall>e. pc = MonDone (Some e) \<longrightarrow> \<not> is_Exception e) \<and>
         (pc = MonSleep \<longrightarrow>
            (\<exists>ess. new_events st st' = Iteration # concat ess \<and>
               list_all2 (\<lambda>(name, process_info) es. observed name (process process_info) es)
                 (processes st) ess)) \<and>
         (\<forall>e. fst (sweep os (processes st) (st\<lparr>events := events st @ [Iteration]\<rparr>)) = Some e \<and>
              is_Exception e \<longrightarrow>
              pc = MonSleepErr \<and>
              last (events st') = Log Error (''Error monitoring processes: '' @ str_exn e) \<and>
              (fst (sleep os (world st')) = None \<longrightarrow>
                 Iteration \<in> set (new_events st' (snd (monitor_resume os MonSleepErr st'))))) \<and>
         (fst (sweep os (processes st) (st\<lparr>events := events st @ [Iteration]\<rparr>)) = None \<longrightarrow>
            pc = MonSleep) \<and>
         (\<forall>e. fst (cleanup os st') = Some e \<longrightarrow> \<not> is_Exception e) \<and>
         processes (snd (cleanup os st')) = processes st \<and>
         (raises_only_errors os \<longrightarrow> fst (cleanup os st') = None)"
proof -
  let ?st0 = "st\<lparr>events := events st @ [Iteration]\<rparr>"
  obtain r st1 where sw: "sweep os (processes st) ?st0 = (r, st1)"
    by (cases "sweep os (processes st) ?st0")
  from sweep_state [OF sw] have s1: "processes st1 = processes st" "\<not> shutdown_event st1"
    using assms(1) by simp_all
  from sweep_transcript [OF sw] obtain es where
    es: "events st1 = events st @ Iteration # es"
        "\<forall>ev\<in>set es. (\<exists>h res. ev = Poll h res) \<or> (\<exists>m. ev = Log Warning m)"
        "r = None \<longrightarrow> (\<exists>ess. es = concat ess \<and>
           list_all2 (\<lambda>(name, process_info) es. observed name (process process_info) es)
             (processes st) ess)"
    by auto
  from assms sw have head: "(pc, st') = (case r of Some e \<Rightarrow> monitor_except e st1 | None \<Rightarrow> (MonSleep, st1))"
    by (simp add: monitor_head_def)
  have reg: "processes st' = processes st" "\<not> shutdown_event st'"
    using monitor_head_state [OF assms(2)] assms(1) by simp_all
  have evs: "\<forall>ev\<in>set (new_events st st').
            ev = Iteration \<or> (\<exists>h res. ev = Poll h res) \<or> (\<exists>m. ev = Log Warning m) \<or>
            (\<exists>m. ev = Log Error m)"
  proof (cases r)
    case None
    with head es(1,2) show ?thesis by (auto simp: new_events_def)
  next
    case (Some e)
    with head have "monitor_except e st1 = (pc, st')" by simp
    from monitor_except_state [OF this] obtain es2 where
      "events st' = events st1 @ es2" "\<forall>ev\<in>set es2. \<exists>m. ev = Log Error m"
      by blast
    with es(1,2) show ?thesis by (auto simp: new_events_def)
  qed
  have noexc: "\<forall>e. pc = MonDone (Some e) \<longrightarrow> \<not> is_Exception e"
  proof (cases r)
    case None
    with head show ?thesis by simp
  next
    case (Some e)
    with head have "monitor_except e st1 = (pc, st')" by simp
    from monitor_except_state [OF this] show ?thesis by blast
  qed
  have ok: "pc = MonSleep \<longrightarrow>
            (\<exists>ess. new_events st st' = Iteration # concat ess \<and>
               list_all2 (\<lambda>(name, process_info) es. observed name (process process_info) es)
                 (processes st) ess)"
  proof (cases r)
    case None
    with head es(1,3) show ?thesis by (auto simp: new_events_def)
  next
    case (Some e)
    with head have "monitor_except e st1 = (pc, st')" by simp
    from monitor_except_state [OF this] show ?thesis by blast
  qed
  have err: "pc = MonSleepErr \<and>
              last (events st') = Log Error (''Error monitoring processes: '' @ str_exn e) \<and>
              (fst (sleep os (world st')) = None \<longrightarrow>
                 Iteration \<in> set (new_events st' (snd (monitor_resume os MonSleepErr st'))))"
    if "fst (sweep os (processes st) ?st0) = Some e" "is_Exception e" for e
  proof -
    from that sw have r: "r = Some e" by simp
    from that(2) have "e \<noteq> CancelledError" by auto
    with r head that(2) have
      st': "pc = MonSleepErr"
           "st' = logger Error (''Error monitoring processes: '' @ str_exn e) st1"
      by (simp_all add: monitor_except_def)
    have "Iteration \<in> set (new_events st' (snd (monitor_resume os MonSleepErr st')))"
      if sl: "fst (sleep os (world st')) = None"
    proof -
      let ?st2 = "st'\<lparr>world := snd (sleep os (world st')), events := events st' @ [Sleep None]\<rparr>"
      obtain r3 st3 where sw2:
        "sweep os (processes ?st2) (?st2\<lparr>events := events ?st2 @ [Iteration]\<rparr>) = (r3, st3)"
        by (cases "sweep os (processes ?st2) (?st2\<lparr>events := events ?st2 @ [Iteration]\<rparr>)")
      from sweep_transcript [OF sw2] obtain es3 where
        e3: "events st3 = events st' @ Sleep None # Iteration # es3" by auto
      obtain pc4 st4 where h4: "monitor_head os ?st2 = (pc4, st4)"
        by (cases "monitor_head os ?st2")
      with sw2 reg(2) have "(pc4, st4) = (case r3 of Some e \<Rightarrow> monitor_except e st3 | None \<Rightarrow> (MonSleep, st3))"
        by (simp add: monitor_head_def)
      then have "\<exists>es4. events st4 = events st3 @ es4"
        by (cases r3) (auto simp: monitor_except_def split: if_splits)
      with e3 have "Iteration \<in> set (drop (length (events st')) (events st4))" by auto
      moreover from sl h4 have "snd (monitor_resume os MonSleepErr st') = st4"
        by (simp add: monitor_resume_def env_call_eq)
      ultimately show ?thesis by (simp add: new_events_def)
    qed
    with st' show ?thesis by simp
  qed
  have cont: "fst (sweep os (processes st) ?st0) = None \<longrightarrow> pc = MonSleep"
    using sw head by auto
  have cl: "(\<forall>e. fst (cleanup os st') = Some e \<longrightarrow> \<not> is_Exception e) \<and>
         processes (snd (cleanup os st')) = processes st \<and>
         (raises_only_errors os \<longrightarrow> fst (cleanup os st') = None)"
    using cleanup_no_error [of os st'] cleanup_state(1) [of os st'] cleanup_calm(1) [of os st'] reg(1)
    by auto
  from reg evs noexc ok err cont cl show ?thesis by blast
qed


lemmas str_eval = str_int_def str_nat.simps digit_char_def

theorem sweep_is_non_fatal_witness:
  "\<not> shutdown_event (two_children (sim_world\<lparr>exited := [(0, 1)]\<rparr>)) \<and>
   fst (monitor_head sim_os (two_children (sim_world\<lparr>exited := [(0, 1)]\<rparr>))) = MonSleep \<and>
   new_events (two_children (sim_world\<lparr>exited := [(0, 1)]\<rparr>))
     (snd (monitor_head sim_os (two_children (sim_world\<lparr>exited := [(0, 1)]\<rparr>)))) =
     [Iteration, Poll 0 (Inr (Some 1)), Log Warning ''Process bot exited with code: 1'',
      Poll 1 (Inr None)] \<and>
   processes (snd (monitor_head sim_os (two_children (sim_world\<lparr>exited := [(0, 1)]\<rparr>)))) =
     processes (two_children (sim_world\<lparr>exited := [(0, 1)]\<rparr>)) \<and>
   fst (cleanup sim_os
          (snd (monitor_head sim_os (two_children (sim_world\<lparr>exited := [(0, 1)]\<rparr>))))) = None \<and>
   new_events (snd (monitor_head sim_os (two_children (sim_world\<lparr>exited := [(0, 1)]\<rparr>))))
     (snd (cleanup sim_os
            (snd (monitor_head sim_os (two_children (sim_world\<lparr>exited := [(0, 1)]\<rparr>)))))) =
     [Log Info ''Terminating process: bot'', Terminate 0 None, Sleep None, Poll 0 (Inr (Some 1)),
      Log Success ''Process bot terminated successfully'',
      Log Info ''Terminating process: meeting'', Terminate 1 None, Sleep None,
      Poll 1 (Inr (Some (- 15))), Log Success ''Process meeting terminated successfully'',
      Log Success ''Cleanup completed successfully''] \<and>
   fst (monitor_head sim_os (two_children (sim_world\<lparr>broken := [1]\<rparr>))) = MonSleepErr \<and>
   new_events (two_children (sim_world\<lparr>broken := [1]\<rparr>))
     (snd (monitor_head sim_os (two_children (sim_world\<lparr>broken := [1]\<rparr>)))) =
     [Iteration, Poll 0 (Inr None), Poll 1 (Inl (OtherException ''poll failed'')),
      Log Error ''Error monitoring processes: poll failed''] \<and>
   Iteration \<in> set (new_events
     (snd (monitor_head sim_os (two_children (sim_world\<lparr>broken := [1]\<rparr>))))
     (snd (monitor_resume sim_os MonSleepErr
            (snd (monitor_head sim_os (two_children (sim_world\<lparr>broken := [1]\<rparr>)))))))"
proof -
  let ?X = "two_children (sim_world\<lparr>exited := [(0, 1)]\<rparr>)"
  let ?B = "two_children (sim_world\<lparr>broken := [1]\<rparr>)"
  have fx: "\<not> shutdown_event ?X" and fb: "\<not> shutdown_event ?B"
    by (simp_all add: two_children_def)
  have hx: "monitor_head sim_os ?X = (fst (monitor_head sim_os ?X), snd (monitor_head sim_os ?X))"
    and hb: "monitor_head sim_os ?B = (fst (monitor_head sim_os ?B), snd (monitor_head sim_os ?B))"
    by simp_all
  have px: "fst (monitor_head sim_os ?X) = MonSleep"
    by (simp add: run_eval sim_eval)
  have ex: "new_events ?X (snd (monitor_head sim_os ?X)) =
     [Iteration, Poll 0 (Inr (Some 1)), Log Warning ''Process bot exited with code: 1'',
      Poll 1 (Inr None)]"
    by (simp add: run_eval sim_eval str_eval)
  have cx: "new_events (snd (monitor_head sim_os ?X))
     (snd (cleanup sim_os (snd (monitor_head sim_os ?X)))) =
     [Log Info ''Terminating process: bot'', Terminate 0 None, Sleep None, Poll 0 (Inr (Some 1)),
      Log Success ''Process bot terminated successfully'',
      Log Info ''Terminating process: meeting'', Terminate 1 None, Sleep None,
      Poll 1 (Inr (Some (- 15))), Log Success ''Process meeting terminated successfully'',
      Log Success ''Cleanup completed successfully'']"
    by (simp add: run_eval sim_eval str_eval)
  have sb: "fst (sweep sim_os (processes ?B) (?B\<lparr>events := events ?B @ [Iteration]\<rparr>)) =
              Some (OtherException ''poll failed'')"
    by (simp add: sim_eval)
  have eb: "new_events ?B (snd (monitor_head sim_os ?B)) =
     [Iteration, Poll 0 (Inr None), Poll 1 (Inl (OtherException ''poll failed'')),
      Log Error ''Error monitoring processes: poll failed'']"
    by (simp add: run_eval sim_eval)
  have slb: "fst (sleep sim_os (world (snd (monitor_head sim_os ?B)))) = None"
    by (simp add: sim_os_def)
  note tx = sweep_is_non_fatal [OF fx hx]
  note tb = sweep_is_non_fatal [OF fb hb]
  from tx have rx: "processes (snd (monitor_head sim_os ?X)) = processes ?X"
    by (rule conjunct1)
  from tx sim_calm have nx: "fst (cleanup sim_os (snd (monitor_head sim_os ?X))) = None"
    by blast
  from tb sb slb have nb: "fst (monitor_head sim_os ?B) = MonSleepErr"
    "Iteration \<in> set (new_events (snd (monitor_head sim_os ?B))
       (snd (monitor_resume sim_os MonSleepErr (snd (monitor_head sim_os ?B)))))"
    by simp_all
  from fx px ex rx nx cx nb eb show ?thesis by blast
qed

section \<open>Properties of the session driver\<close>

lemmas drv_eval =
  main_def async_main_def session_def finish_def session_handlers_def resolve_meeting_url_def
  resolve_persona_def select_persona_def random_choice_def start_processes_def run_command_def
  start_failed_def bot_command_def meeting_command_def BotManager_init_def validate_url_def

lemma interactive_url_is_validated:
  assumes "get_user_input os prompt (Some validate_url) st = Some (Inr u, st')"
  shows "prefix ''https://'' u"
proof -
  have "\<forall>u st'. y = (Inr u, st') \<longrightarrow> validator = Some validate_url \<longrightarrow> prefix ''https://'' u"
    if "get_user_input os prompt validator st = Some y" for validator y
    using that
  proof (induction os prompt validator st y rule: get_user_input.raw_induct)
    case (1 f os prompt validator st y)
    show ?case
    proof (intro allI impI)
      fix u st'
      assume y: "y = (Inr u, st')" and v: "validator = Some validate_url"
      let ?st1 = "st\<lparr>world := snd (input os prompt (world st))\<rparr>"
      show "prefix ''https://'' u"
      proof (cases "fst (input os prompt (world st))")
        case (Inl e)
        with 1(2) y show ?thesis by (simp add: env_read_eq)
      next
        case (Inr typed)
        show ?thesis
        proof (cases "prefix ''https://'' (strip typed)")
          case True
          with Inr v 1(2) y show ?thesis
            by (simp add: env_read_eq validate_url_def)
        next
          case False
          let ?st2 = "logger Warning (''Invalid input received: '' @ ''URL must start with https://'') ?st1"
          from False Inr v 1(2) have a: "f os prompt validator ?st2 = Some y"
            by (simp add: env_read_eq validate_url_def)
          from 1(3) False Inr v have b: "get_user_input os prompt validator ?st2 = Some y"
            by (subst (asm) get_user_input.simps) (simp add: env_read_eq validate_url_def)
          from 1(1) [OF a b] y v show ?thesis by blast
        qed
      qed
    qed
  qed (rule that)
  from this [OF assms] show ?thesis by blast
qed

lemma interactive_url_reprompts:
  assumes "fst (input os prompt (world st)) = Inr typed"
    and "\<not> prefix ''https://'' (strip typed)"
  shows "get_user_input os prompt (Some validate_url) st =
           get_user_input os prompt (Some validate_url)
             (logger Warning ''Invalid input received: URL must start with https://''
                (st\<lparr>world := snd (input os prompt (world st))\<rparr>))"
  using assms
  by (subst get_user_input.simps) (simp add: env_read_eq validate_url_def)

text \<open>
  Claim C9, on the URL given with \<^verbatim>\<open>--meeting-url\<close>. The prompt validates what the user
  types (\<open>interactive_url_is_validated\<close>, \<open>interactive_url_reprompts\<close>), but a URL
  given on the command line is not passed through \<^verbatim>\<open>validate_url\<close>. The URL
  "http://example.com", which \<^verbatim>\<open>validate_url\<close> rejects, is taken as the meeting URL
  in every environment and state; on the simulated environment \<^verbatim>\<open>main\<close> returns
  normally, and both children are started, the meeting process with that URL.
\<close>

theorem meeting_url_flag_is_not_validated:
  "validate_url ''http://example.com'' = Inl (ValueError ''URL must start with https://'') \<and>
   resolve_meeting_url os \<lparr>persona = p, port = n, meeting_url = Some ''http://example.com''\<rparr> st =
     Some (Inr ''http://example.com'', st) \<and>
   map_option fst
     (main sim_os [RunSignal, RunMain, RunMonitor, RunMain]
        \<lparr>persona = None, port = 8765, meeting_url = Some ''http://example.com''\<rparr>
        (BotManager_init sim_world)) = Some Returned \<and>
   fst (start_processes sim_os
          \<lparr>persona = None, port = 8765, meeting_url = Some ''http://example.com''\<rparr>
          ''http://example.com'' ''alpha'' ''You are alpha'' (BotManager_init sim_world)) = Run \<and>
   new_events (BotManager_init sim_world)
     (snd (start_processes sim_os
          \<lparr>persona = None, port = 8765, meeting_url = Some ''http://example.com''\<rparr>
          ''http://example.com'' ''alpha'' ''You are alpha'' (BotManager_init sim_world))) =
     [Popen (bot_command 8765 ''You are alpha'' ''alpha'') (Inr 0),
      ThreadStart 0 Stdout ''bot'' None, ThreadStart 0 Stderr ''bot'' None, Sleep None,
      Popen (meeting_command ''http://example.com'' ''alpha'') (Inr 1),
      ThreadStart 1 Stdout ''meeting'' None, ThreadStart 1 Stderr ''meeting'' None,
      Log Success ''Successfully started bot and meeting processes'',
      Log Info ''Press Ctrl+C to stop all processes'']"
proof -
  have a: "validate_url ''http://example.com'' = Inl (ValueError ''URL must start with https://'')"
    by (simp add: validate_url_def)
  have b: "resolve_meeting_url os
       \<lparr>persona = p, port = n, meeting_url = Some ''http://example.com''\<rparr> st =
     Some (Inr ''http://example.com'', st)"
    by (simp add: resolve_meeting_url_def)
  have c: "map_option fst
     (main sim_os [RunSignal, RunMain, RunMonitor, RunMain]
        \<lparr>persona = None, port = 8765, meeting_url = Some ''http://example.com''\<rparr>
        (BotManager_init sim_world)) = Some Returned"
    by (simp add: drv_eval run_eval sim_eval str_eval)
  have d: "fst (start_processes sim_os
          \<lparr>persona = None, port = 8765, meeting_url = Some ''http://example.com''\<rparr>
          ''http://example.com'' ''alpha'' ''You are alpha'' (BotManager_init sim_world)) = Run"
    by (simp add: drv_eval sim_eval str_eval)
  have e: "new_events (BotManager_init sim_world)
     (snd (start_processes sim_os
          \<lparr>persona = None, port = 8765, meeting_url = Some ''http://example.com''\<rparr>
          ''http://example.com'' ''alpha'' ''You are alpha'' (BotManager_init sim_world))) =
     [Popen (bot_command 8765 ''You are alpha'' ''alpha'') (Inr 0),
      ThreadStart 0 Stdout ''bot'' None, ThreadStart 0 Stderr ''bot'' None, Sleep None,
      Popen (meeting_command ''http://example.com'' ''alpha'') (Inr 1),
      ThreadStart 1 Stdout ''meeting'' None, ThreadStart 1 Stderr ''meeting'' None,
      Log Success ''Successfully started bot and meeting processes'',
      Log Info ''Press Ctrl+C to stop all processes'']"
    by (simp add: drv_eval sim_eval str_eval)
  from a b c d e show ?thesis by blast
qed

lemma cleanup_empty:
  "processes st = [] \<Longrightarrow>
     cleanup os st = (None, logger Success ''Cleanup completed successfully'' st)"
  by (simp add: cleanup_def)

lemma bot_is_not_meeting: "bot_command n pr nm \<noteq> meeting_command u nm'"
  by (simp add: bot_command_def meeting_command_def)

text \<open>
  Claim C6, as the code has it. \<^verbatim>\<open>main\<close> runs on a fresh manager, whose registry is
  empty. When the URL and the persona are resolved and \<^verbatim>\<open>run_command\<close> returns
  \<^verbatim>\<open>None\<close> for the worker, \<^verbatim>\<open>main\<close> returns normally, so the exit code is 0 and
  \<^verbatim>\<open>sys.exit(1)\<close> is not reached; \<^verbatim>\<open>cleanup\<close> is invoked over the empty registry and
  only logs its closing line; and the only program the run tried to start is the
  worker: the coordinator's command is never passed to \<^verbatim>\<open>Popen\<close>.
\<close>

theorem failed_worker_spawn:
  assumes "processes st = []"
    and "resolve_meeting_url os a st = Some (Inr url, st1)"
    and "resolve_persona os a st1 = (Inr (name, bot_prompt), st2)"
    and "run_command os (bot_command (port a) bot_prompt name) ''bot'' st2 = (Inr None, st3)"
  shows "main os sched a st =
           Some (Returned,
                 logger Success ''Cleanup completed successfully''
                   (logger Success ''Cleanup completed successfully''
                      (logger Error ''Failed to start bot'' st3))) \<and>
         exit_code Returned = 0 \<and>
         processes (logger Error ''Failed to start bot'' st3) = [] \<and>
         cleanup os (logger Error ''Failed to start bot'' st3) =
           (None, logger Success ''Cleanup completed successfully''
                    (logger Error ''Failed to start bot'' st3)) \<and>
         (\<forall>cmd res. Popen cmd res \<in> set (new_events st st3) \<longrightarrow>
             cmd = bot_command (port a) bot_prompt name) \<and>
         (\<forall>u n. bot_command (port a) bot_prompt name \<noteq> meeting_command u n)"
proof -
  from resolve_meeting_url_state [OF assms(2)] assms(1) obtain ws where
    s1: "processes st1 = []" "events st1 = events st @ ws" "\<forall>ev\<in>set ws. \<exists>m. ev = Log Warning m"
    by auto
  from resolve_persona_state(2,3) [OF assms(3)] s1(1) obtain ls where
    s2: "processes st2 = []" "events st2 = events st1 @ ls" "\<forall>ev\<in>set ls. \<exists>sev m. ev = Log sev m"
    by auto
  from run_command_cases [OF assms(4)] s2(1) have s3: "processes st3 = []" by simp
  from run_command_events [OF assms(4)] obtain es where
    es: "events st3 = events st2 @ es"
        "\<forall>c res. Popen c res \<in> set es \<longrightarrow> c = bot_command (port a) bot_prompt name"
    by blast
  let ?st4 = "logger Error ''Failed to start bot'' st3"
  from s3 have p4: "processes ?st4 = []" by simp
  note c4 = cleanup_empty [OF p4, of os]
  have sp: "start_processes os a url name bot_prompt st2 = (Leave None, ?st4)"
    using assms(4) by (simp add: start_processes_def)
  have se: "session os sched a url st1 = Some (Ended None, ?st4)"
    using assms(3) sp by (simp add: session_def)
  have fi: "finish os None ?st4 =
              (None, logger Success ''Cleanup completed successfully''
                       (logger Success ''Cleanup completed successfully'' ?st4))"
    using c4 by (simp add: finish_def session_handlers_def)
  have m: "main os sched a st =
           Some (Returned,
                 logger Success ''Cleanup completed successfully''
                   (logger Success ''Cleanup completed successfully'' ?st4))"
    using assms(2) se fi by (simp add: main_def async_main_def)
  have "new_events st st3 = ws @ ls @ es"
    using s1(2) s2(2) es(1) by (simp add: new_events_def)
  with s1(3) s2(3) es(2)
  have po: "\<forall>cmd res. Popen cmd res \<in> set (new_events st st3) \<longrightarrow>
             cmd = bot_command (port a) bot_prompt name"
    by auto
  from m p4 c4 po bot_is_not_meeting show ?thesis by simp
qed

theorem failed_worker_spawn_witness:
  "processes (BotManager_init (sim_world\<lparr>executable := False\<rparr>)) = [] \<and>
   fst (resolve_persona sim_os
          \<lparr>persona = Some ''alpha'', port = 8765, meeting_url = Some ''https://meet.example/abc''\<rparr>
          (BotManager_init (sim_world\<lparr>executable := False\<rparr>))) = Inr (''alpha'', ''You are alpha'') \<and>
   fst (run_command sim_os (bot_command 8765 ''You are alpha'' ''alpha'') ''bot''
          (snd (resolve_persona sim_os
             \<lparr>persona = Some ''alpha'', port = 8765, meeting_url = Some ''https://meet.example/abc''\<rparr>
             (BotManager_init (sim_world\<lparr>executable := False\<rparr>))))) = Inr None \<and>
   map_option fst
     (main sim_os []
        \<lparr>persona = Some ''alpha'', port = 8765, meeting_url = Some ''https://meet.example/abc''\<rparr>
        (BotManager_init (sim_world\<lparr>executable := False\<rparr>))) = Some Returned \<and>
   events (snd (the
     (main sim_os []
        \<lparr>persona = Some ''alpha'', port = 8765, meeting_url = Some ''https://meet.example/abc''\<rparr>
        (BotManager_init (sim_world\<lparr>executable := False\<rparr>))))) =
     [Log Info ''Starting bot with random persona selection...'',
      Log Warning ''Selected persona: alpha'',
      Log Warning ''System prompt: You are alpha'',
      Popen (bot_command 8765 ''You are alpha'' ''alpha'')
        (Inl (OtherException ''[Errno 2] No such file or directory'')),
      Log Error ''Failed to start bot: [Errno 2] No such file or directory'',
      Log Error ''Traceback (most recent call last)'',
      Log Error ''Failed to start bot'',
      Log Success ''Cleanup completed successfully'',
      Log Success ''Cleanup completed successfully'']"
proof -
  let ?a = "\<lparr>persona = Some ''alpha'', port = 8765,
             meeting_url = Some ''https://meet.example/abc''\<rparr>"
  let ?I = "BotManager_init (sim_world\<lparr>executable := False\<rparr>)"
  let ?st2 = "snd (resolve_persona sim_os ?a ?I)"
  let ?st3 = "snd (run_command sim_os (bot_command 8765 ''You are alpha'' ''alpha'') ''bot'' ?st2)"
  have h1: "processes ?I = []" by (simp add: BotManager_init_def)
  have h2: "resolve_meeting_url sim_os ?a ?I = Some (Inr ''https://meet.example/abc'', ?I)"
    by (simp add: resolve_meeting_url_def)
  have f3: "fst (resolve_persona sim_os ?a ?I) = Inr (''alpha'', ''You are alpha'')"
    by (simp add: drv_eval sim_eval)
  then have h3: "resolve_persona sim_os ?a ?I = (Inr (''alpha'', ''You are alpha''), ?st2)"
    by (simp add: prod_eq_iff)
  have e2: "events ?st2 =
     [Log Info ''Starting bot with random persona selection...'',
      Log Warning ''Selected persona: alpha'',
      Log Warning ''System prompt: You are alpha'']"
    "executable (world ?st2) = False"
    by (simp_all add: drv_eval sim_eval)
  have f4: "fst (run_command sim_os (bot_command 8765 ''You are alpha'' ''alpha'') ''bot'' ?st2) =
              Inr None"
    using e2(2) by (simp add: run_command_def start_failed_def env_call_eq sim_os_def)
  then have h4: "run_command sim_os (bot_command (port ?a) ''You are alpha'' ''alpha'') ''bot'' ?st2 =
                   (Inr None, ?st3)"
    by (simp add: prod_eq_iff)
  have e3: "events ?st3 = events ?st2 @
     [Popen (bot_command 8765 ''You are alpha'' ''alpha'')
        (Inl (OtherException ''[Errno 2] No such file or directory'')),
      Log Error ''Failed to start bot: [Errno 2] No such file or directory'',
      Log Error ''Traceback (most recent call last)'']"
    using e2(2) by (simp add: run_command_def start_failed_def env_call_eq sim_os_def)
  from failed_worker_spawn [OF h1 h2 h3 h4, of "[]"]
  have "main sim_os [] ?a ?I =
           Some (Returned,
                 logger Success ''Cleanup completed successfully''
                   (logger Success ''Cleanup completed successfully''
                      (logger Error ''Failed to start bot'' ?st3)))"
    by (rule conjunct1)
  with e2(1) e3 h1 f3 f4 show ?thesis by simp
qed

text \<open>
  The exit code of claim C6 as it was stated: with no executable to start, the spawn
  of the worker fails and the exit code is 0, not 1.
\<close>

theorem failed_worker_spawn_exit_code_counterexample:
  "fst (run_command sim_os (bot_command 8765 ''You are alpha'' ''alpha'') ''bot''
          (snd (resolve_persona sim_os
             \<lparr>persona = Some ''alpha'', port = 8765, meeting_url = Some ''https://meet.example/abc''\<rparr>
             (BotManager_init (sim_world\<lparr>executable := False\<rparr>))))) = Inr None \<and>
   map_option (exit_code \<circ> fst)
     (main sim_os []
        \<lparr>persona = Some ''alpha'', port = 8765, meeting_url = Some ''https://meet.example/abc''\<rparr>
        (BotManager_init (sim_world\<lparr>executable := False\<rparr>))) = Some 0 \<and>
   map_option (exit_code \<circ> fst)
     (main sim_os []
        \<lparr>persona = Some ''alpha'', port = 8765, meeting_url = Some ''https://meet.example/abc''\<rparr>
        (BotManager_init (sim_world\<lparr>executable := False\<rparr>))) \<noteq> Some 1"
  by (simp add: drv_eval run_eval sim_eval str_eval)

lemma random_choice_draw:
  assumes "available \<noteq> []"
  shows "fst (random_choice os available st) =
           Inr (available ! (fst (randbelow os (length available) (world st)) mod length available))"
    and "\<exists>q\<in>set available. fst (random_choice os available st) = Inr q"
proof -
  show d: "fst (random_choice os available st) =
           Inr (available ! (fst (randbelow os (length available) (world st)) mod length available))"
    using assms by (simp add: random_choice_def env_read_eq)
  from assms have
    "available ! (fst (randbelow os (length available) (world st)) mod length available)
       \<in> set available"
    by simp
  with d show "\<exists>q\<in>set available. fst (random_choice os available st) = Inr q"
    by blast
qed

text \<open>
  Claim C8, as the code has it. A persona name that is supplied, not empty and not in
  the collaborator's list raises \<^verbatim>\<open>ValueError\<close> at the selection; on a fresh manager
  the run then logs the error, runs \<^verbatim>\<open>cleanup\<close> over the empty registry and returns,
  having started no child process (its events after the URL is resolved are four log
  lines). A supplied name that is in the list is selected. When no name or the empty
  string is supplied and the list is not empty, the persona is the element of the
  list at the index that \<^verbatim>\<open>random.choice\<close> draws, an element of the list. The
  distribution of the draw belongs to the environment.
\<close>

theorem persona_selection:
  "(persona a = Some p \<and> p \<noteq> [] \<and> p \<notin> set available \<longrightarrow>
      select_persona os a available st =
        (Inl (ValueError (''Persona '' @ [CHR 0x27] @ p @ [CHR 0x27]
                           @ '' not found in available personas'')), st)) \<and>
   (persona a = Some p \<and> p \<noteq> [] \<and> p \<in> set available \<longrightarrow>
      select_persona os a available st = (Inr p, st)) \<and>
   ((persona a = None \<or> persona a = Some []) \<and> available \<noteq> [] \<longrightarrow>
      fst (select_persona os a available st) =
        Inr (available ! (fst (randbelow os (length available) (world st)) mod length available)) \<and>
      (\<exists>q\<in>set available. fst (select_persona os a available st) = Inr q)) \<and>
   (persona a = Some p \<and> p \<noteq> [] \<and> p \<notin> set available \<and> processes st = [] \<and>
    resolve_meeting_url os a st = Some (Inr url, st1) \<and>
    fst (list_personas os (world st1)) = Inr available \<longrightarrow>
      main os sched a st =
        Some (Returned,
              st1\<lparr>world := snd (list_personas os (world st1)),
                  events := events st1 @
                    [Log Info ''Starting bot with random persona selection...'',
                     Log Error (''Unexpected error: '' @ ''Persona '' @ [CHR 0x27] @ p @ [CHR 0x27]
                                 @ '' not found in available personas''),
                     Log Success ''Cleanup completed successfully'',
                     Log Success ''Cleanup completed successfully'']\<rparr>))"
proof -
  have one: "select_persona os a available st =
        (Inl (ValueError (''Persona '' @ [CHR 0x27] @ p @ [CHR 0x27]
                           @ '' not found in available personas'')), st)"
    if "persona a = Some p" "p \<noteq> []" "p \<notin> set available" for st :: "'a state"
    using that by (simp add: select_persona_def)
  have two: "select_persona os a available st = (Inr p, st)"
    if "persona a = Some p" "p \<noteq> []" "p \<in> set available"
    using that by (simp add: select_persona_def)
  have three: "fst (select_persona os a available st) =
        Inr (available ! (fst (randbelow os (length available) (world st)) mod length available)) \<and>
      (\<exists>q\<in>set available. fst (select_persona os a available st) = Inr q)"
    if "persona a = None \<or> persona a = Some []" "available \<noteq> []"
  proof -
    from that(1) have "select_persona os a available st = random_choice os available st"
      by (auto simp: select_persona_def)
    with random_choice_draw [OF that(2), of os st] show ?thesis by simp
  qed
  have four: "main os sched a st =
        Some (Returned,
              st1\<lparr>world := snd (list_personas os (world st1)),
                  events := events st1 @
                    [Log Info ''Starting bot with random persona selection...'',
                     Log Error (''Unexpected error: '' @ ''Persona '' @ [CHR 0x27] @ p @ [CHR 0x27]
                                 @ '' not found in available personas''),
                     Log Success ''Cleanup completed successfully'',
                     Log Success ''Cleanup completed successfully'']\<rparr>)"
    if h: "persona a = Some p" "p \<noteq> []" "p \<notin> set available" "processes st = []"
      "resolve_meeting_url os a st = Some (Inr url, st1)"
      "fst (list_personas os (world st1)) = Inr available"
  proof -
    let ?msg = "''Persona '' @ [CHR 0x27] @ p @ [CHR 0x27] @ '' not found in available personas''"
    let ?st2 = "(logger Info ''Starting bot with random persona selection...'' st1)
                  \<lparr>world := snd (list_personas os (world st1))\<rparr>"
    from resolve_meeting_url_state [OF h(5)] h(4) have p1: "processes st1 = []" by simp
    have rp: "resolve_persona os a st1 = (Inl (ValueError ?msg), ?st2)"
      using h(6) one [OF h(1,2,3), of ?st2]
      by (simp add: resolve_persona_def env_read_eq)
    then have se: "session os sched a url st1 = Some (Ended (Some (ValueError ?msg)), ?st2)"
      by (simp add: session_def)
    let ?st3 = "logger Error (''Unexpected error: '' @ ?msg) ?st2"
    from p1 have "processes ?st3 = []" by simp
    from cleanup_empty [OF this, of os]
    have fi: "finish os (Some (ValueError ?msg)) ?st2 =
                (None, logger Success ''Cleanup completed successfully''
                         (logger Success ''Cleanup completed successfully'' ?st3))"
      by (simp add: finish_def session_handlers_def)
    from h(5) se fi have "main os sched a st =
        Some (Returned, logger Success ''Cleanup completed successfully''
                          (logger Success ''Cleanup completed successfully'' ?st3))"
      by (simp add: main_def async_main_def)
    then show ?thesis by (simp add: logger_def)
  qed
  from one two three four show ?thesis by blast
qed

theorem persona_selection_witness:
  "persona \<lparr>persona = Some ''gamma'', port = 8765,
             meeting_url = Some ''https://meet.example/abc''\<rparr> = Some ''gamma'' \<and>
   ''gamma'' \<noteq> [] \<and> ''gamma'' \<notin> set [''alpha'', ''beta''] \<and>
   processes (BotManager_init sim_world) = [] \<and>
   fst (list_personas sim_os (world (BotManager_init sim_world))) = Inr [''alpha'', ''beta''] \<and>
   main sim_os []
     \<lparr>persona = Some ''gamma'', port = 8765, meeting_url = Some ''https://meet.example/abc''\<rparr>
     (BotManager_init sim_world) =
     Some (Returned,
       \<lparr>processes = [], shutdown_event = False, selected_persona_name = None,
        events =
          [Log Info ''Starting bot with random persona selection...'',
           Log Error (''Unexpected error: Persona '' @ [CHR 0x27] @ ''gamma'' @ [CHR 0x27]
                       @ '' not found in available personas''),
           Log Success ''Cleanup completed successfully'',
           Log Success ''Cleanup completed successfully''],
        world = sim_world\<rparr>) \<and>
   fst (select_persona sim_os
          \<lparr>persona = None, port = 8765, meeting_url = Some ''https://meet.example/abc''\<rparr>
          [''alpha'', ''beta''] (BotManager_init sim_world)) = Inr ''alpha''"
proof -
  let ?a = "\<lparr>persona = Some ''gamma'', port = 8765,
             meeting_url = Some ''https://meet.example/abc''\<rparr>"
  let ?n = "\<lparr>persona = None, port = 8765, meeting_url = Some ''https://meet.example/abc''\<rparr>"
  let ?I = "BotManager_init sim_world"
  have h: "persona ?a = Some ''gamma'' \<and> ''gamma'' \<noteq> [] \<and> ''gamma'' \<notin> set [''alpha'', ''beta''] \<and>
    processes ?I = [] \<and>
    resolve_meeting_url sim_os ?a ?I = Some (Inr ''https://meet.example/abc'', ?I) \<and>
    fst (list_personas sim_os (world ?I)) = Inr [''alpha'', ''beta'']"
    by (simp add: BotManager_init_def resolve_meeting_url_def sim_os_def)
  note t = persona_selection [of ?a "''gamma''" "[''alpha'', ''beta'']" sim_os ?I
      "''https://meet.example/abc''" ?I "[]"]
  from t h have m: "main sim_os [] ?a ?I =
        Some (Returned,
              ?I\<lparr>world := snd (list_personas sim_os (world ?I)),
                  events := events ?I @
                    [Log Info ''Starting bot with random persona selection...'',
                     Log Error (''Unexpected error: '' @ ''Persona '' @ [CHR 0x27] @ ''gamma''
                                 @ [CHR 0x27] @ '' not found in available personas''),
                     Log Success ''Cleanup completed successfully'',
                     Log Success ''Cleanup completed successfully'']\<rparr>)"
    by blast
  note u = persona_selection [of ?n "''gamma''" "[''alpha'', ''beta'']" sim_os ?I]
  have "persona ?n = None \<or> persona ?n = Some []" "[''alpha'', ''beta''] \<noteq> []"
    by simp_all
  with u have "fst (select_persona sim_os ?n [''alpha'', ''beta''] ?I) =
        Inr ([''alpha'', ''beta''] ! (fst (randbelow sim_os (length [''alpha'', ''beta'']) (world ?I))
                                      mod length [''alpha'', ''beta'']))"
    by blast
  then have r: "fst (select_persona sim_os ?n [''alpha'', ''beta''] ?I) = Inr ''alpha''"
    by (simp add: sim_os_def)
  from h m r show ?thesis
    by (simp add: BotManager_init_def sim_os_def)
qed

text \<open>
  Claim C8 as it was stated: the empty string, supplied as the persona name and not
  in the list, raises nothing. A persona is drawn and the worker is started.
\<close>

theorem empty_persona_counterexample:
  "persona \<lparr>persona = Some '''', port = 8765,
             meeting_url = Some ''https://meet.example/abc''\<rparr> = Some '''' \<and>
   '''' \<notin> set [''alpha'', ''beta''] \<and>
   fst (list_personas sim_os (world (BotManager_init sim_world))) = Inr [''alpha'', ''beta''] \<and>
   select_persona sim_os
     \<lparr>persona = Some '''', port = 8765, meeting_url = Some ''https://meet.example/abc''\<rparr>
     [''alpha'', ''beta''] (BotManager_init sim_world) = (Inr ''alpha'', BotManager_init sim_world) \<and>
   fst (resolve_persona sim_os
     \<lparr>persona = Some '''', port = 8765, meeting_url = Some ''https://meet.example/abc''\<rparr>
     (BotManager_init sim_world)) = Inr (''alpha'', ''You are alpha'') \<and>
   map_option fst
     (main sim_os [RunSignal, RunMain, RunMonitor, RunMain]
        \<lparr>persona = Some '''', port = 8765, meeting_url = Some ''https://meet.example/abc''\<rparr>
        (BotManager_init sim_world)) = Some Returned \<and>
   Popen (bot_command 8765 ''You are alpha'' ''alpha'') (Inr 0) \<in>
     set (events (snd (start_processes sim_os
        \<lparr>persona = Some '''', port = 8765, meeting_url = Some ''https://meet.example/abc''\<rparr>
        ''https://meet.example/abc'' ''alpha'' ''You are alpha''
        (snd (resolve_persona sim_os
           \<lparr>persona = Some '''', port = 8765, meeting_url = Some ''https://meet.example/abc''\<rparr>
           (BotManager_init sim_world))))))"
proof -
  let ?a = "\<lparr>persona = Some '''', port = 8765, meeting_url = Some ''https://meet.example/abc''\<rparr>"
  let ?I = "BotManager_init sim_world"
  have a: "persona ?a = Some ''''" "'''' \<notin> set [''alpha'', ''beta'']"
    "fst (list_personas sim_os (world ?I)) = Inr [''alpha'', ''beta'']"
    by (simp_all add: sim_os_def)
  have b: "select_persona sim_os ?a [''alpha'', ''beta''] ?I = (Inr ''alpha'', ?I)"
    by (simp add: drv_eval sim_eval)
  have c: "fst (resolve_persona sim_os ?a ?I) = Inr (''alpha'', ''You are alpha'')"
    by (simp add: drv_eval sim_eval)
  have d: "map_option fst (main sim_os [RunSignal, RunMain, RunMonitor, RunMain] ?a ?I) =
             Some Returned"
    by (simp add: drv_eval run_eval sim_eval str_eval)
  have e: "Popen (bot_command 8765 ''You are alpha'' ''alpha'') (Inr 0) \<in>
     set (events (snd (start_processes sim_os ?a ''https://meet.example/abc'' ''alpha''
        ''You are alpha'' (snd (resolve_persona sim_os ?a ?I)))))"
    by (simp add: drv_eval sim_eval str_eval)
  from a b c d e show ?thesis by blast
qed

section \<open>Properties of the stopped event loop\<close>

text \<open>
  Once an interrupt has left the monitor task the event loop runs nothing more: the
  running phase stays where it is, whatever the schedule goes on to ask for.
\<close>

lemma running_stopped: "loop_stopped c = Some e \<Longrightarrow> running os sched c = c"
  by (induction sched) (simp_all add: run_step_def)

text \<open>
  \<^verbatim>\<open>main\<close> then raises the interrupt. Where the platform is not win32 the state is the
  one in which the loop stopped: neither the handlers nor \<^verbatim>\<open>cleanup\<close> have run.
\<close>

lemma stopped_loop_main:
  assumes "async_main os sched a st = Some (Suspended pc e, st1)" and "\<not> is_Exception e"
  shows "main os sched a st =
           Some (Uncaught e, if win32 os then asyncio_run_close os pc e st1 else st1)"
  using assms by (simp add: main_def)

text \<open>
  With two children running, the sweep polls the first, the poll of the second raises
  the interrupt, and a signal and two runs of the main coroutine that the schedule
  lists after that change nothing: the main coroutine is still at its wait and no
  child has been terminated.
\<close>

lemma monitor_interrupt_stops_loop:
  "running interrupted_os [RunMonitor, RunSignal, RunMain, RunMain]
     \<lparr>main_task = MainWait, monitor_task = MonReady, cstate = two_children sim_world\<rparr> =
   \<lparr>main_task = MainWait, monitor_task = MonDone (Some KeyboardInterrupt),
    cstate = (two_children sim_world)
       \<lparr>events := [Iteration, Poll 0 (Inr None), Poll 1 (Inl KeyboardInterrupt)]\<rparr>\<rparr>"
  by (simp add: run_eval sim_eval interrupted_os_def)

lemma monitor_interrupt_leaves_main:
  "map_option fst
     (main interrupted_os [RunMonitor, RunSignal, RunMain, RunMain]
        \<lparr>persona = Some ''alpha'', port = 8765, meeting_url = Some ''https://meet.example/abc''\<rparr>
        (BotManager_init sim_world)) = Some (Uncaught KeyboardInterrupt)"
  by (simp add: drv_eval run_eval sim_eval str_eval interrupted_os_def)

end
